theory Spec2Isabelle
  imports Complex_Main
begin

section \<open>The AORC download script: data model\<close>

text \<open>
  The script \<^verbatim>\<open>scripts/download_aorc.py\<close> opens a remote labelled array, selects a
  time window and a latitude/longitude box, reduces the box to a cosine-latitude weighted
  mean per time step, logs two quality metrics and writes two files.

  Floating-point numbers are read as reals; a missing value (NaN) is \<open>None\<close>.
  Timestamps are \<^verbatim>\<open>datetime64[ns]\<close> values: integers counting nanoseconds since the epoch.
  The library calls of the script (label slicing, the weighted reduction, the maximum
  and its index, the index difference) are written out as the functions they compute.
\<close>

type_synonym timestamp = int

datatype error =
    OpenError string     \<comment> \<open>the exception of the second \<^verbatim>\<open>xr.open_zarr\<close> call\<close>
  | MissingVariable      \<comment> \<open>\<^verbatim>\<open>KeyError("Variable 'apcp' not found in dataset.")\<close>\<close>
  | CoordinateNotFound   \<comment> \<open>\<^verbatim>\<open>KeyError("Could not find latitude/longitude coordinates in dataset")\<close>\<close>
  | EmptyCoordinate      \<comment> \<open>\<^verbatim>\<open>IndexError\<close> of \<^verbatim>\<open>coordinate[0]\<close> on an empty coordinate\<close>
  | SliceKeyError        \<comment> \<open>\<^verbatim>\<open>KeyError\<close> of a label slice the index cannot answer\<close>
  | NoTimeSteps          \<comment> \<open>\<^verbatim>\<open>ValueError("No time steps found in requested subset.")\<close>\<close>
  | ArgmaxError          \<comment> \<open>\<^verbatim>\<open>ValueError\<close> of \<^verbatim>\<open>idxmax\<close> on a series without a value\<close>

definition and_then :: "error + 'a \<Rightarrow> ('a \<Rightarrow> error + 'b) \<Rightarrow> error + 'b" where
  "and_then r f = (case r of Inl e \<Rightarrow> Inl e | Inr x \<Rightarrow> f x)"

text \<open>
  The variable \<^verbatim>\<open>apcp\<close>: its time index, its one-dimensional real coordinates by name
  (the coordinates called latitude/lat and longitude/lon index the second and the third
  axis), and its cells by position (time, latitude, longitude).

  A coordinate has a floating-point type of its own, and its index looks a label up at
  that precision: \<open>coord_cast\<close> gives, for a coordinate name, the conversion of a label
  (a float64 number) to the coordinate's type. For a float64 coordinate it changes nothing;
  for a float32 coordinate it is \<open>float32\<close> below.
\<close>

record data_array =
  time_index :: "timestamp list"
  coords :: "string \<rightharpoonup> real list"
  coord_cast :: "string \<Rightarrow> real \<Rightarrow> real"
  cells :: "nat \<Rightarrow> nat \<Rightarrow> nat \<Rightarrow> real option"

text \<open>
  The conversion of a number to float32: the nearest number with a significand of 24
  bits, a tie going to the even one. The exponent is that of the number, and not below
  -126 (the subnormal range); overflow is left out, a coordinate being far from it.
\<close>

definition round_even :: "real \<Rightarrow> int" where
  "round_even r =
     (let f = \<lfloor>r\<rfloor>
      in if r - of_int f < 1 / 2 then f
         else if 1 / 2 < r - of_int f then f + 1
         else if even f then f else f + 1)"

definition float_exponent :: "real \<Rightarrow> int" where
  "float_exponent v = max (- 126) \<lfloor>log 2 \<bar>v\<bar>\<rfloor>"

definition float32 :: "real \<Rightarrow> real" where
  "float32 v =
     (if v = 0 then 0
      else
        let u = 2 powr (of_int (float_exponent v) - 23)
        in of_int (round_even (v / u)) * u)"

type_synonym dataset = "string \<rightharpoonup> data_array"

text \<open>The selected view: the three coordinate arrays and the cells, by position.\<close>

record subset =
  sub_time :: "timestamp list"
  sub_lat :: "real list"
  sub_lon :: "real list"
  sub_cells :: "nat \<Rightarrow> nat \<Rightarrow> nat \<Rightarrow> real option"

text \<open>
  The module constants \<^verbatim>\<open>TIME_START\<close>, \<^verbatim>\<open>TIME_END\<close>, \<^verbatim>\<open>LAT_MIN\<close>, \<^verbatim>\<open>LAT_MAX\<close>,
  \<^verbatim>\<open>LON_MIN\<close>, \<^verbatim>\<open>LON_MAX\<close>. The functions below take them as a parameter, so that
  every theorem holds for the script's constants (\<open>module_constants\<close>) and for any others.
\<close>

record config =
  time_start :: timestamp
  time_end :: timestamp
  lat_min :: real
  lat_max :: real
  lon_min :: real
  lon_max :: real

definition second_ns :: int where
  "second_ns = 1000000000"

definition hour_ns :: int where
  "hour_ns = 3600 * second_ns"

definition module_constants :: config where
  "module_constants =
     \<lparr> time_start = 1262304000 * second_ns,  \<comment> \<open>2010-01-01T00:00:00\<close>
       time_end = 1609455600 * second_ns,    \<comment> \<open>2020-12-31T23:00:00\<close>
       lat_min = 37.60, lat_max = 37.85,
       lon_min = -89.35, lon_max = -89.05 \<rparr>"

section \<open>Label slices on an index\<close>

text \<open>
  \<^verbatim>\<open>DataArray.sel(name=slice(a, b))\<close> asks the coordinate's pandas index for the
  positions of the slice (\<^verbatim>\<open>Index.slice_indexer\<close>, \<^verbatim>\<open>slice_locs\<close>,
  \<^verbatim>\<open>get_slice_bound\<close>) and then selects them by position.
\<close>

datatype side = SideLeft | SideRight

text \<open>
  \<^verbatim>\<open>searchsorted\<close> on a sorted array: the first position whose element is not below
  (left), or is above (right), the value. It is only called on a sorted array.
\<close>

definition searchsorted :: "'a::linorder list \<Rightarrow> 'a \<Rightarrow> side \<Rightarrow> nat" where
  "searchsorted xs v s =
     (case s of
        SideLeft \<Rightarrow> length (takeWhile (\<lambda>x. x < v) xs)
      | SideRight \<Rightarrow> length (takeWhile (\<lambda>x. x \<le> v) xs))"

text \<open>
  \<^verbatim>\<open>get_loc\<close>: the positions holding the label, as a range. The index engine converts
  the label to the type of the index first (\<open>cast\<close>), and looks the converted label up.
  A label that is absent is a \<^verbatim>\<open>KeyError\<close>; so is, for \<^verbatim>\<open>get_slice_bound\<close>, a
  label whose occurrences are not contiguous.
\<close>

definition get_loc :: "('a \<Rightarrow> 'a) \<Rightarrow> 'a list \<Rightarrow> 'a \<Rightarrow> error + (nat \<times> nat)" where
  "get_loc cast xs v =
     (let c = cast v
      in if c \<notin> set xs then Inl SliceKeyError
         else
           let a = length (takeWhile (\<lambda>x. x \<noteq> c) xs);
               b = length xs - length (takeWhile (\<lambda>x. x \<noteq> c) (rev xs))
           in if list_all (\<lambda>x. x = c) (take (b - a) (drop a xs)) then Inr (a, b)
              else Inl SliceKeyError)"

text \<open>
  \<^verbatim>\<open>_searchsorted_monotonic\<close>: on a decreasing index the search runs on the reversed
  index with the side flipped; an index of neither order raises. The search compares the
  label itself (as a float64 number) with the elements.
\<close>

definition searchsorted_monotonic :: "'a::linorder list \<Rightarrow> 'a \<Rightarrow> side \<Rightarrow> error + nat" where
  "searchsorted_monotonic xs v s =
     (if sorted xs then Inr (searchsorted xs v s)
      else if sorted (rev xs) then
        Inr (length xs -
             searchsorted (rev xs) v (case s of SideLeft \<Rightarrow> SideRight | SideRight \<Rightarrow> SideLeft))
      else Inl SliceKeyError)"

definition get_slice_bound ::
    "('a \<Rightarrow> 'a) \<Rightarrow> 'a::linorder list \<Rightarrow> 'a \<Rightarrow> side \<Rightarrow> error + nat" where
  "get_slice_bound cast xs v s =
     (case get_loc cast xs v of
        Inr (a, b) \<Rightarrow> Inr (case s of SideLeft \<Rightarrow> a | SideRight \<Rightarrow> b)
      | Inl _ \<Rightarrow> searchsorted_monotonic xs v s)"

definition slice_locs ::
    "('a \<Rightarrow> 'a) \<Rightarrow> 'a::linorder list \<Rightarrow> 'a \<Rightarrow> 'a \<Rightarrow> error + (nat \<times> nat)" where
  "slice_locs cast xs start stop =
     and_then (get_slice_bound cast xs start SideLeft) (\<lambda>a.
     and_then (get_slice_bound cast xs stop SideRight) (\<lambda>b. Inr (a, b)))"

text \<open>Selection by position with \<^verbatim>\<open>xs[a:b]\<close>, for \<open>a\<close> and \<open>b\<close> within the length.\<close>

definition isel :: "nat \<times> nat \<Rightarrow> 'a list \<Rightarrow> 'a list" where
  "isel r xs = take (snd r - fst r) (drop (fst r) xs)"

datatype 'a slice = Slice (slice_start: 'a) (slice_stop: 'a)

text \<open>
  \<^verbatim>\<open>
  def _get_slice(min_value, max_value, coordinate):
      ascending = bool(coordinate[0] <= coordinate[-1])
      return slice(min_value, max_value) if ascending else slice(max_value, min_value)
  \<close>
\<close>

definition get_slice :: "real \<Rightarrow> real \<Rightarrow> real list \<Rightarrow> error + real slice" where
  "get_slice min_value max_value coordinate =
     (if coordinate = [] then Inl EmptyCoordinate
      else
        let ascending = (hd coordinate \<le> last coordinate)
        in Inr (if ascending then Slice min_value max_value else Slice max_value min_value))"

text \<open>
  The positions that \<^verbatim>\<open>sel\<close> selects on a spatial coordinate, for the slice of
  \<^verbatim>\<open>_get_slice\<close>; \<open>cast\<close> is the conversion to the coordinate's type.
\<close>

definition sel_coordinate ::
    "(real \<Rightarrow> real) \<Rightarrow> real \<Rightarrow> real \<Rightarrow> real list \<Rightarrow> error + (nat \<times> nat)" where
  "sel_coordinate cast min_value max_value coordinate =
     and_then (get_slice min_value max_value coordinate) (\<lambda>sl.
       slice_locs cast coordinate (slice_start sl) (slice_stop sl))"

text \<open>The coordinate values that this selection keeps, in stored order.\<close>

definition sel_values ::
    "(real \<Rightarrow> real) \<Rightarrow> real \<Rightarrow> real \<Rightarrow> real list \<Rightarrow> error + real list" where
  "sel_values cast min_value max_value coordinate =
     and_then (sel_coordinate cast min_value max_value coordinate)
       (\<lambda>r. Inr (isel r coordinate))"

text \<open>
  The time slice has string bounds at the resolution of a second: the left bound is the
  start of its second and the right bound the end of it, both timestamps of the index's
  own type. On an increasing
  \<^verbatim>\<open>DatetimeIndex\<close> the slice is answered as above. On any other one both bounds must
  be timestamps of the index, and the selection must be the whole index (anything else
  is not a slice of positions, which \<^verbatim>\<open>sel\<close> refuses).
\<close>

definition sel_time :: "timestamp \<Rightarrow> timestamp \<Rightarrow> timestamp list \<Rightarrow> error + (nat \<times> nat)" where
  "sel_time start stop ts =
     (let lo = start; hi = stop + (second_ns - 1)
      in if sorted ts then slice_locs (\<lambda>t. t) ts lo hi
         else if lo \<in> set ts \<and> hi \<in> set ts \<and> list_all (\<lambda>t. lo \<le> t \<and> t \<le> hi) ts
         then Inr (0, length ts)
         else Inl SliceKeyError)"

section \<open>The subsetter\<close>

text \<open>
  \<^verbatim>\<open>
  lat_name = "latitude" if "latitude" in apcp.coords else "lat"
  lon_name = "longitude" if "longitude" in apcp.coords else "lon"
  if lat_name not in apcp.coords or lon_name not in apcp.coords:
      raise KeyError("Could not find latitude/longitude coordinates in dataset")
  \<close>
\<close>

definition resolve_names :: "data_array \<Rightarrow> error + (string \<times> string)" where
  "resolve_names apcp =
     (let lat_name = (if ''latitude'' \<in> dom (coords apcp) then ''latitude'' else ''lat'');
          lon_name = (if ''longitude'' \<in> dom (coords apcp) then ''longitude'' else ''lon'')
      in if lat_name \<notin> dom (coords apcp) \<or> lon_name \<notin> dom (coords apcp)
         then Inl CoordinateNotFound
         else Inr (lat_name, lon_name))"

definition coordinate_of :: "data_array \<Rightarrow> string \<Rightarrow> error + real list" where
  "coordinate_of apcp name =
     (case coords apcp name of None \<Rightarrow> Inl CoordinateNotFound | Some c \<Rightarrow> Inr c)"

text \<open>
  \<^verbatim>\<open>
  subset = apcp.sel(
      time=slice(TIME_START, TIME_END),
      **{lat_name: _get_slice(LAT_MIN, LAT_MAX, apcp[lat_name]),
         lon_name: _get_slice(LON_MIN, LON_MAX, apcp[lon_name])})
  \<close>
  The two slices are built first, then the three axes are sliced.
\<close>

definition sel :: "config \<Rightarrow> data_array \<Rightarrow> string \<Rightarrow> string \<Rightarrow> error + subset" where
  "sel cfg apcp lat_name lon_name =
     and_then (coordinate_of apcp lat_name) (\<lambda>lat.
     and_then (get_slice (lat_min cfg) (lat_max cfg) lat) (\<lambda>lat_slice.
     and_then (coordinate_of apcp lon_name) (\<lambda>lon.
     and_then (get_slice (lon_min cfg) (lon_max cfg) lon) (\<lambda>lon_slice.
     and_then (sel_time (time_start cfg) (time_end cfg) (time_index apcp)) (\<lambda>tr.
     and_then (slice_locs (coord_cast apcp lat_name) lat
                 (slice_start lat_slice) (slice_stop lat_slice)) (\<lambda>ir.
     and_then (slice_locs (coord_cast apcp lon_name) lon
                 (slice_start lon_slice) (slice_stop lon_slice)) (\<lambda>jr.
       Inr \<lparr> sub_time = isel tr (time_index apcp),
             sub_lat = isel ir lat,
             sub_lon = isel jr lon,
             sub_cells = (\<lambda>t i j. cells apcp (fst tr + t) (fst ir + i) (fst jr + j)) \<rparr>)))))))"

section \<open>The aggregator\<close>

text \<open>
  \<^verbatim>\<open>
  lat_radians = np.deg2rad(subset[lat_name])
  weights = np.cos(lat_radians)
  area_mean = subset.weighted(weights).mean(dim=(lat_name, lon_name))
  \<close>
  The weighted mean of one time step is the weighted sum of its cells, a missing cell
  counting as zero, over the sum of the weights of the cells that are present; where that
  sum is zero the mean is missing.
\<close>

definition deg2rad :: "real \<Rightarrow> real" where
  "deg2rad x = x * (pi / 180)"

definition weights :: "subset \<Rightarrow> real list" where
  "weights sub = map (\<lambda>lat. cos (deg2rad lat)) (sub_lat sub)"

definition weighted_sum :: "real list \<Rightarrow> nat \<Rightarrow> (nat \<Rightarrow> nat \<Rightarrow> real option) \<Rightarrow> real" where
  "weighted_sum w nlon plane =
     (\<Sum>i\<leftarrow>[0..<length w]. \<Sum>j\<leftarrow>[0..<nlon].
        (case plane i j of None \<Rightarrow> 0 | Some v \<Rightarrow> v) * (w ! i))"

definition total_weight :: "real list \<Rightarrow> nat \<Rightarrow> (nat \<Rightarrow> nat \<Rightarrow> real option) \<Rightarrow> real" where
  "total_weight w nlon plane =
     (\<Sum>i\<leftarrow>[0..<length w]. \<Sum>j\<leftarrow>[0..<nlon].
        (case plane i j of None \<Rightarrow> 0 | Some v \<Rightarrow> w ! i))"

definition sum_of_weights :: "real list \<Rightarrow> nat \<Rightarrow> (nat \<Rightarrow> nat \<Rightarrow> real option) \<Rightarrow> real option" where
  "sum_of_weights w nlon plane =
     (let s = total_weight w nlon plane in if s = 0 then None else Some s)"

definition weighted_mean :: "real list \<Rightarrow> nat \<Rightarrow> (nat \<Rightarrow> nat \<Rightarrow> real option) \<Rightarrow> real option" where
  "weighted_mean w nlon plane =
     (case sum_of_weights w nlon plane of
        None \<Rightarrow> None
      | Some s \<Rightarrow> Some (weighted_sum w nlon plane / s))"

definition area_mean :: "subset \<Rightarrow> real option list" where
  "area_mean sub =
     map (\<lambda>t. weighted_mean (weights sub) (length (sub_lon sub)) (sub_cells sub t))
       [0..<length (sub_time sub)]"

section \<open>The quality metrics\<close>

text \<open>
  \<^verbatim>\<open>
  expected_index = pd.date_range(TIME_START, TIME_END, freq="h", tz="UTC")
  actual_index = pd.DatetimeIndex(pd.to_datetime(area_mean.time.values, utc=True))
  missing_hours = len(expected_index.difference(actual_index))
  \<close>
\<close>

definition date_range :: "timestamp \<Rightarrow> timestamp \<Rightarrow> timestamp list" where
  "date_range start stop =
     map (\<lambda>k. start + int k * hour_ns) [0..<nat ((stop - start) div hour_ns + 1)]"

definition difference :: "timestamp list \<Rightarrow> timestamp list \<Rightarrow> timestamp list" where
  "difference expected actual = sort (remdups (filter (\<lambda>t. t \<notin> set actual) expected))"

definition missing_hours :: "config \<Rightarrow> timestamp list \<Rightarrow> nat" where
  "missing_hours cfg actual_index =
     length (difference (date_range (time_start cfg) (time_end cfg)) actual_index)"

text \<open>
  The materialised series (\<^verbatim>\<open>area_mean.compute().to_series()\<close>): a name, the name of
  its index, and one entry per time step.
\<close>

record series =
  series_name :: string
  index_name :: string
  entries :: "(timestamp \<times> real option) list"

definition to_series :: "subset \<Rightarrow> series" where
  "to_series sub =
     \<lparr> series_name = ''apcp'', index_name = ''time'',
       entries = zip (sub_time sub) (area_mean sub) \<rparr>"

text \<open>
  \<^verbatim>\<open>Series.max()\<close> skips missing values; without any value it is missing.
\<close>

fun nanmax :: "real option list \<Rightarrow> real option" where
  "nanmax [] = None"
| "nanmax (None # xs) = nanmax xs"
| "nanmax (Some v # xs) = (case nanmax xs of None \<Rightarrow> Some v | Some m \<Rightarrow> Some (max v m))"

text \<open>
  The position of the maximum, missing values skipped: one scan from the left that
  keeps the best position so far and replaces it only by a strictly larger value.
\<close>

fun nanargmax :: "real option list \<Rightarrow> nat \<Rightarrow> (nat \<times> real) option \<Rightarrow> (nat \<times> real) option" where
  "nanargmax [] i best = best"
| "nanargmax (None # xs) i best = nanargmax xs (Suc i) best"
| "nanargmax (Some v # xs) i best =
     nanargmax xs (Suc i)
       (case best of
          None \<Rightarrow> Some (i, v)
        | Some (k, m) \<Rightarrow> if m < v then Some (i, v) else Some (k, m))"

text \<open>The first position of a value in a list (the length of the list when absent).\<close>

definition first_index :: "'a list \<Rightarrow> 'a \<Rightarrow> nat" where
  "first_index xs y = length (takeWhile (\<lambda>x. x \<noteq> y) xs)"

text \<open>
  \<^verbatim>\<open>Series.idxmax()\<close>: the index label at that position. An empty series raises. A
  series with missing values only raises in pandas 3 and gives a missing label (with a
  warning) before; \<open>all_na_raises\<close> says which.
\<close>

definition idxmax :: "bool \<Rightarrow> series \<Rightarrow> error + timestamp option" where
  "idxmax all_na_raises s =
     (if entries s = [] then Inl ArgmaxError
      else
        case nanargmax (map snd (entries s)) 0 None of
          None \<Rightarrow> if all_na_raises then Inl ArgmaxError else Inr None
        | Some (k, m) \<Rightarrow> Inr (Some (fst (entries s ! k))))"

section \<open>The sink\<close>

record netcdf_file =
  nc_variable :: string
  nc_time :: "timestamp list"
  nc_lat :: "real list"
  nc_lon :: "real list"
  nc_data :: "real option list list list"

definition to_netcdf :: "string \<Rightarrow> subset \<Rightarrow> netcdf_file" where
  "to_netcdf name sub =
     \<lparr> nc_variable = name,
       nc_time = sub_time sub, nc_lat = sub_lat sub, nc_lon = sub_lon sub,
       nc_data =
         map (\<lambda>t. map (\<lambda>i. map (\<lambda>j. sub_cells sub t i j) [0..<length (sub_lon sub)])
                  [0..<length (sub_lat sub)])
           [0..<length (sub_time sub)] \<rparr>"

text \<open>
  \<^verbatim>\<open>
  csv_df = area_mean_series.rename("apcp_area_mean").to_frame()
  csv_df.index.name = "time"
  csv_df.to_csv(AREA_MEAN_CSV)
  \<close>
  The file is a header row (the index name, then the column name) and one row per entry
  of the frame, in the frame's order.
\<close>

record data_frame =
  frame_index_name :: string
  frame_column :: string
  frame_rows :: "(timestamp \<times> real option) list"

definition rename :: "string \<Rightarrow> series \<Rightarrow> series" where
  "rename name s = s\<lparr>series_name := name\<rparr>"

definition to_frame :: "series \<Rightarrow> data_frame" where
  "to_frame s =
     \<lparr> frame_index_name = index_name s, frame_column = series_name s,
       frame_rows = entries s \<rparr>"

record csv_file =
  csv_header :: "string list"
  csv_rows :: "(timestamp \<times> real option) list"

definition to_csv :: "data_frame \<Rightarrow> csv_file" where
  "to_csv df =
     \<lparr> csv_header = [frame_index_name df, frame_column df], csv_rows = frame_rows df \<rparr>"

section \<open>The pipeline and its effects\<close>

text \<open>
  What a run does to the outside, in order: the directory it creates, the lines it logs,
  the open calls it makes (with the location and the consolidation flag), the files it
  writes (with the path and the content). A log line is recorded by its format string;
  the warning also carries the exception it prints, and the two lines of the metrics their
  values. Failures of the file system (creating the directory, writing a file) are not
  modelled: these calls succeed.
\<close>

datatype event =
    Mkdir string
  | LogInfo string
  | LogWarning string string
  | OpenZarr string bool
  | LogMissingHours nat
  | LogMax "real option" "timestamp option"
  | WriteNetcdf string netcdf_file
  | WriteCsv string csv_file

fun is_write :: "event \<Rightarrow> bool" where
  "is_write (WriteNetcdf path f) = True"
| "is_write (WriteCsv path f) = True"
| "is_write e = False"

definition OUTPUT_DIR :: string where
  "OUTPUT_DIR = ''outputs''"

definition SUBSET_NETCDF :: string where
  "SUBSET_NETCDF = ''outputs/aorc_subset_apcp_2010_2020.nc''"

definition AREA_MEAN_CSV :: string where
  "AREA_MEAN_CSV = ''outputs/aorc_area_mean_apcp_hourly_2010_2020.csv''"

text \<open>
  What a run meets outside: the value of the environment variable, the answer of the
  store at a location to \<^verbatim>\<open>xr.open_zarr\<close> with and without consolidated metadata (an
  exception's text or a dataset), and the pandas behaviour named above.
\<close>

record world =
  env_uri :: "string option"
  open_zarr :: "string \<Rightarrow> bool \<Rightarrow> string + dataset"
  all_na_raises :: bool

definition AORC_ZARR_URI :: "world \<Rightarrow> string" where
  "AORC_ZARR_URI w = (case env_uri w of None \<Rightarrow> ''s3://noaa-nws-aorc-v1-1-1km'' | Some u \<Rightarrow> u)"

text \<open>
  \<^verbatim>\<open>
  def open_aorc_dataset(uri):
      logging.info("Opening AORC dataset from %s", uri)
      ...
      try:
          ds = xr.open_zarr(mapper, consolidated=True, chunks={"time": 24})
      except Exception as exc:
          logging.warning("Consolidated open failed (%s); retrying without consolidation", exc)
          ds = xr.open_zarr(mapper, consolidated=False, chunks={"time": 24})
      if "apcp" not in ds:
          raise KeyError("Variable 'apcp' not found in dataset.")
      return ds
  \<close>
\<close>

definition open_aorc_dataset :: "world \<Rightarrow> string \<Rightarrow> event list \<times> (error + dataset)" where
  "open_aorc_dataset w uri =
     (let (evs, r) =
        (case open_zarr w uri True of
           Inr ds \<Rightarrow> ([LogInfo ''Opening AORC dataset from %s'', OpenZarr uri True], Inr ds)
         | Inl exc \<Rightarrow>
             ([LogInfo ''Opening AORC dataset from %s'', OpenZarr uri True,
               LogWarning ''Consolidated open failed (%s); retrying without consolidation'' exc,
               OpenZarr uri False],
              case open_zarr w uri False of
                Inr ds \<Rightarrow> Inr ds
              | Inl exc2 \<Rightarrow> Inl (OpenError exc2)))
      in (evs, and_then r (\<lambda>ds. if ''apcp'' \<notin> dom ds then Inl MissingVariable else Inr ds)))"

text \<open>
  The second half of \<^verbatim>\<open>main\<close>, from the check of the time steps on:
  \<^verbatim>\<open>
  if subset.sizes.get("time", 0) == 0:
      raise ValueError("No time steps found in requested subset.")
  lat_radians = np.deg2rad(subset[lat_name])
  weights = np.cos(lat_radians)
  area_mean = subset.weighted(weights).mean(dim=(lat_name, lon_name))
  logging.info("Computing QA metrics")
  expected_index = pd.date_range(TIME_START, TIME_END, freq="h", tz="UTC")
  actual_index = pd.DatetimeIndex(pd.to_datetime(area_mean.time.values, utc=True))
  missing_hours = len(expected_index.difference(actual_index))
  area_mean_series = area_mean.compute().to_series()
  max_timestamp = area_mean_series.idxmax()
  max_value = float(area_mean_series.max())
  logging.info("Missing hours in requested period: %d", missing_hours)
  logging.info("Max hourly area-mean apcp: %.4f at %s", max_value, max_timestamp)
  logging.info("Writing NetCDF subset to %s", SUBSET_NETCDF)
  subset.to_dataset(name="apcp").to_netcdf(SUBSET_NETCDF)
  logging.info("Writing area-mean CSV to %s", AREA_MEAN_CSV)
  csv_df = area_mean_series.rename("apcp_area_mean").to_frame()
  csv_df.index.name = "time"
  csv_df.to_csv(AREA_MEAN_CSV)
  logging.info("Done")
  \<close>
  The weighted mean is lazy: nothing of it can fail before the series is materialised.
\<close>

definition qa_and_sink :: "config \<Rightarrow> world \<Rightarrow> subset \<Rightarrow> event list \<times> (error + unit)" where
  "qa_and_sink cfg w sub =
     (if length (sub_time sub) = 0 then ([], Inl NoTimeSteps)
      else
        let missing = missing_hours cfg (sub_time sub);
            area_mean_series = to_series sub
        in case idxmax (all_na_raises w) area_mean_series of
             Inl e \<Rightarrow> ([LogInfo ''Computing QA metrics''], Inl e)
           | Inr max_timestamp \<Rightarrow>
               let max_value = nanmax (map snd (entries area_mean_series));
                   csv_df = (to_frame (rename ''apcp_area_mean'' area_mean_series))
                              \<lparr>frame_index_name := ''time''\<rparr>
               in ([LogInfo ''Computing QA metrics'',
                    LogMissingHours missing,
                    LogMax max_value max_timestamp,
                    LogInfo ''Writing NetCDF subset to %s'',
                    WriteNetcdf SUBSET_NETCDF (to_netcdf ''apcp'' sub),
                    LogInfo ''Writing area-mean CSV to %s'',
                    WriteCsv AREA_MEAN_CSV (to_csv csv_df),
                    LogInfo ''Done''],
                   Inr ()))"

text \<open>
  The first half of \<^verbatim>\<open>main\<close>, and the whole of it:
  \<^verbatim>\<open>
  OUTPUT_DIR.mkdir(parents=True, exist_ok=True)
  ds = open_aorc_dataset(AORC_ZARR_URI)
  apcp = ds["apcp"]
  lat_name = ...; lon_name = ...; if ...: raise KeyError(...)
  logging.info("Subsetting data in time and space")
  subset = apcp.sel(...)
  \<close>
  A run is the trace of its events and either the error that ended it or nothing.
\<close>

definition main :: "config \<Rightarrow> world \<Rightarrow> event list \<times> (error + unit)" where
  "main cfg w =
     (let (evs, r) = open_aorc_dataset w (AORC_ZARR_URI w)
      in case r of
           Inl e \<Rightarrow> (Mkdir OUTPUT_DIR # evs, Inl e)
         | Inr ds \<Rightarrow>
             (case ds ''apcp'' of
                None \<Rightarrow> (Mkdir OUTPUT_DIR # evs, Inl MissingVariable)
              | Some apcp \<Rightarrow>
                  (case resolve_names apcp of
                     Inl e \<Rightarrow> (Mkdir OUTPUT_DIR # evs, Inl e)
                   | Inr (lat_name, lon_name) \<Rightarrow>
                       (case sel cfg apcp lat_name lon_name of
                          Inl e \<Rightarrow> (Mkdir OUTPUT_DIR # evs @ [LogInfo ''Subsetting data in time and space''], Inl e)
                        | Inr sub \<Rightarrow>
                            (let (evs2, r2) = qa_and_sink cfg w sub
                             in (Mkdir OUTPUT_DIR # evs @ [LogInfo ''Subsetting data in time and space''] @ evs2,
                                 r2))))))"

text \<open>
  What a trace shows: the tabular files written, the consolidation flags of the open
  calls made, and the two metrics logged.
\<close>

fun csv_files :: "event list \<Rightarrow> csv_file list" where
  "csv_files [] = []"
| "csv_files (WriteCsv path f # evs) = f # csv_files evs"
| "csv_files (e # evs) = csv_files evs"

fun open_calls :: "event list \<Rightarrow> bool list" where
  "open_calls [] = []"
| "open_calls (OpenZarr uri consolidated # evs) = consolidated # open_calls evs"
| "open_calls (e # evs) = open_calls evs"

fun missing_hours_logged :: "event list \<Rightarrow> nat list" where
  "missing_hours_logged [] = []"
| "missing_hours_logged (LogMissingHours n # evs) = n # missing_hours_logged evs"
| "missing_hours_logged (e # evs) = missing_hours_logged evs"

fun max_logged :: "event list \<Rightarrow> (real option \<times> timestamp option) list" where
  "max_logged [] = []"
| "max_logged (LogMax v t # evs) = (v, t) # max_logged evs"
| "max_logged (e # evs) = max_logged evs"

section \<open>A synthetic dataset\<close>

text \<open>
  A small grid for running the pipeline: three hourly time steps, the latitudes 60 and
  0 (stored descending), two longitudes, both coordinates float64, and the value 9 at the
  second time step and 3 elsewhere. The store answers the open calls with a dataset, or refuses the consolidated
  one; the requested window and latitude bounds vary.
\<close>

definition example_apcp :: data_array where
  "example_apcp =
     \<lparr> time_index = [0, hour_ns, 2 * hour_ns],
       coords = [''latitude'' \<mapsto> [60, 0], ''longitude'' \<mapsto> [10, 11]],
       coord_cast = (\<lambda>name v. v),
       cells = (\<lambda>t i j. Some (if t = 1 then 9 else 3)) \<rparr>"

definition example_world :: "dataset \<Rightarrow> bool \<Rightarrow> bool \<Rightarrow> world" where
  "example_world ds consolidated_ok raises =
     \<lparr> env_uri = None,
       open_zarr = (\<lambda>uri consolidated.
          if consolidated \<and> \<not> consolidated_ok then Inl ''no consolidated metadata''
          else Inr ds),
       all_na_raises = raises \<rparr>"

definition example_config :: "timestamp \<Rightarrow> timestamp \<Rightarrow> real \<Rightarrow> real \<Rightarrow> config" where
  "example_config t0 t1 lo hi =
     \<lparr> time_start = t0, time_end = t1,
       lat_min = lo, lat_max = hi, lon_min = 10, lon_max = 11 \<rparr>"

text \<open>
  A second dataset, one cell wide, whose time index is not in time order: the
  timestamps 999999999, 20, 10 and 0 nanoseconds, with the values 1, 5, 5 and 2.
\<close>

definition unsorted_apcp :: data_array where
  "unsorted_apcp =
     \<lparr> time_index = [999999999, 20, 10, 0],
       coords = [''latitude'' \<mapsto> [0], ''longitude'' \<mapsto> [10]],
       coord_cast = (\<lambda>name v. v),
       cells = (\<lambda>t i j. Some (if t = 0 then 1 else if t = 3 then 2 else 5)) \<rparr>"

section \<open>Sorted lists and contiguous ranges\<close>

lemma and_then_Inr [simp]: "and_then (Inr x) f = f x"
  by (simp add: and_then_def)

lemma and_then_Inl [simp]: "and_then (Inl e) f = Inl e"
  by (simp add: and_then_def)

lemma takeWhile_closed:
  "sorted_wrt R xs \<Longrightarrow> (\<And>x y. R x y \<Longrightarrow> P y \<Longrightarrow> P x) \<Longrightarrow> takeWhile P xs = filter P xs"
proof (induction xs)
  case Nil
  then show ?case by simp
next
  case (Cons x xs)
  show ?case
  proof (cases "P x")
    case True
    with Cons show ?thesis by simp
  next
    case False
    have "\<forall>y\<in>set xs. \<not> P y"
      using Cons.prems False by auto
    then have "filter P xs = []" by (simp add: filter_empty_conv)
    with False show ?thesis by simp
  qed
qed

lemma dropWhile_closed:
  "sorted_wrt R xs \<Longrightarrow> (\<And>x y. R x y \<Longrightarrow> P y \<Longrightarrow> P x) \<Longrightarrow>
   dropWhile P xs = filter (\<lambda>x. \<not> P x) xs"
proof (induction xs)
  case Nil
  then show ?case by simp
next
  case (Cons x xs)
  show ?case
  proof (cases "P x")
    case True
    with Cons show ?thesis by simp
  next
    case False
    have "\<forall>y\<in>set xs. \<not> P y"
      using Cons.prems False by auto
    then have "filter (\<lambda>x. \<not> P x) xs = xs" by (simp add: filter_id_conv)
    with False show ?thesis by simp
  qed
qed

lemma drop_closed:
  assumes "sorted_wrt R xs" "\<And>x y. R x y \<Longrightarrow> P y \<Longrightarrow> P x"
  shows "drop (length (takeWhile P xs)) xs = filter (\<lambda>x. \<not> P x) xs"
proof -
  have "dropWhile P xs = filter (\<lambda>x. \<not> P x) xs" using assms by (rule dropWhile_closed)
  then show ?thesis by (simp add: dropWhile_eq_drop)
qed

lemma range_closed:
  assumes R: "sorted_wrt R xs"
    and P: "\<And>x y. R x y \<Longrightarrow> P y \<Longrightarrow> P x"
    and Q: "\<And>x y. R x y \<Longrightarrow> Q y \<Longrightarrow> Q x"
    and PQ: "(\<forall>x. P x \<longrightarrow> Q x) \<or> (\<forall>x. Q x \<longrightarrow> P x)"
  shows "isel (length (takeWhile P xs), length (takeWhile Q xs)) xs =
         filter (\<lambda>x. Q x \<and> \<not> P x) xs"
proof -
  let ?ys = "filter (\<lambda>x. \<not> P x) xs"
  have ys: "sorted_wrt R ?ys" using R by (rule sorted_wrt_filter)
  have tq: "takeWhile Q ?ys = filter Q ?ys" using ys Q by (rule takeWhile_closed)
  have "takeWhile P xs = filter P xs" using R P by (rule takeWhile_closed)
  then have lp: "length (takeWhile P xs) = length (filter P xs)" by simp
  have "takeWhile Q xs = filter Q xs" using R Q by (rule takeWhile_closed)
  then have lq: "length (takeWhile Q xs) = length (filter Q xs)" by simp
  have dr: "drop (length (takeWhile P xs)) xs = ?ys" using R P by (rule drop_closed)
  have split: "length (filter Q xs) =
      length (filter (\<lambda>x. Q x \<and> P x) xs) + length (filter (\<lambda>x. Q x \<and> \<not> P x) xs)"
    by (induction xs) auto
  have len: "length (filter Q xs) - length (filter P xs) = length (filter Q ?ys)"
  proof -
    from PQ show ?thesis
    proof
      assume "\<forall>x. P x \<longrightarrow> Q x"
      then have "filter (\<lambda>x. Q x \<and> P x) xs = filter P xs"
        by (intro filter_cong) auto
      with split show ?thesis by (simp add: conj_commute)
    next
      assume a: "\<forall>x. Q x \<longrightarrow> P x"
      then have e: "filter (\<lambda>x. Q x \<and> \<not> P x) xs = []"
        by (auto simp: filter_empty_conv)
      have "length (filter Q xs) \<le> length (filter P xs)"
        using a by (induction xs) auto
      with e show ?thesis by (simp add: conj_commute)
    qed
  qed
  have "isel (length (takeWhile P xs), length (takeWhile Q xs)) xs =
        take (length (filter Q ?ys)) ?ys"
    using dr by (simp add: isel_def lp lq len)
  also have "\<dots> = takeWhile Q ?ys"
    using tq by (metis takeWhile_eq_take)
  also have "\<dots> = filter (\<lambda>x. Q x \<and> \<not> P x) xs"
    using tq by (simp add: conj_commute)
  finally show ?thesis .
qed

lemma takeWhile_neq_sorted_wrt:
  "sorted_wrt R xs \<Longrightarrow> v \<in> set xs \<Longrightarrow>
   takeWhile (\<lambda>x. x \<noteq> v) xs = takeWhile (\<lambda>x. R x v \<and> x \<noteq> v) xs"
  by (induction xs) auto

lemma length_filter_compl:
  "length xs - length (filter P xs) = length (filter (\<lambda>x. \<not> P x) xs)"
  using sum_length_filter_compl [of P xs] by simp

lemma sorted_rev_wrt: "sorted (rev xs) = sorted_wrt (\<lambda>x y. y \<le> x) xs"
  by (simp add: sorted_wrt_rev)

lemma tw_less: "sorted xs \<Longrightarrow> takeWhile (\<lambda>x. x < v) xs = filter (\<lambda>x. x < v) xs"
  by (rule takeWhile_closed [where R = "(\<le>)"]) auto

lemma tw_le: "sorted xs \<Longrightarrow> takeWhile (\<lambda>x. x \<le> v) xs = filter (\<lambda>x. x \<le> v) xs"
  by (rule takeWhile_closed [where R = "(\<le>)"]) auto

lemma tw_greater:
  "sorted (rev xs) \<Longrightarrow> takeWhile (\<lambda>x. v < x) xs = filter (\<lambda>x. v < x) xs"
  by (rule takeWhile_closed [where R = "\<lambda>x y. y \<le> x"]) (auto simp: sorted_rev_wrt)

lemma tw_ge:
  "sorted (rev xs) \<Longrightarrow> takeWhile (\<lambda>x. v \<le> x) xs = filter (\<lambda>x. v \<le> x) xs"
  by (rule takeWhile_closed [where R = "\<lambda>x y. y \<le> x"]) (auto simp: sorted_rev_wrt)

lemma range_asc:
  fixes lo hi :: "'a::linorder"
  assumes "sorted xs"
  shows "isel (length (takeWhile (\<lambda>x. x < lo) xs), length (takeWhile (\<lambda>x. x \<le> hi) xs)) xs =
         filter (\<lambda>x. lo \<le> x \<and> x \<le> hi) xs"
proof -
  have "isel (length (takeWhile (\<lambda>x. x < lo) xs), length (takeWhile (\<lambda>x. x \<le> hi) xs)) xs =
        filter (\<lambda>x. x \<le> hi \<and> \<not> x < lo) xs"
    using assms by (intro range_closed [where R = "(\<le>)"]) auto
  also have "\<dots> = filter (\<lambda>x. lo \<le> x \<and> x \<le> hi) xs"
    by (intro filter_cong) auto
  finally show ?thesis .
qed

lemma range_desc:
  fixes lo hi :: "'a::linorder"
  assumes "sorted (rev xs)"
  shows "isel (length (takeWhile (\<lambda>x. hi < x) xs), length (takeWhile (\<lambda>x. lo \<le> x) xs)) xs =
         filter (\<lambda>x. lo \<le> x \<and> x \<le> hi) xs"
proof -
  have "isel (length (takeWhile (\<lambda>x. hi < x) xs), length (takeWhile (\<lambda>x. lo \<le> x) xs)) xs =
        filter (\<lambda>x. lo \<le> x \<and> \<not> hi < x) xs"
    using assms by (intro range_closed [where R = "\<lambda>x y. y \<le> x"]) (auto simp: sorted_rev_wrt)
  also have "\<dots> = filter (\<lambda>x. lo \<le> x \<and> x \<le> hi) xs"
    by (intro filter_cong) auto
  finally show ?thesis .
qed

lemma get_loc_asc:
  fixes v :: "'a::linorder"
  assumes s: "sorted xs" and v: "v \<in> set xs" and cv: "cast l = v"
  shows "get_loc cast xs l =
         Inr (length (takeWhile (\<lambda>x. x < v) xs), length (takeWhile (\<lambda>x. x \<le> v) xs))"
proof -
  have "takeWhile (\<lambda>x. x \<noteq> v) xs = takeWhile (\<lambda>x. x \<le> v \<and> x \<noteq> v) xs"
    using s v by (rule takeWhile_neq_sorted_wrt)
  also have "\<dots> = takeWhile (\<lambda>x. x < v) xs"
    by (intro takeWhile_cong) auto
  finally have a: "length (takeWhile (\<lambda>x. x \<noteq> v) xs) = length (takeWhile (\<lambda>x. x < v) xs)"
    by simp
  have r: "sorted_wrt (\<lambda>x y. y \<le> x) (rev xs)"
    using s by (simp add: sorted_wrt_rev)
  have "takeWhile (\<lambda>x. x \<noteq> v) (rev xs) = takeWhile (\<lambda>x. v \<le> x \<and> x \<noteq> v) (rev xs)"
    using r v by (intro takeWhile_neq_sorted_wrt) auto
  also have "\<dots> = takeWhile (\<lambda>x. v < x) (rev xs)"
    by (intro takeWhile_cong) auto
  also have "\<dots> = filter (\<lambda>x. v < x) (rev xs)"
    using s by (intro tw_greater) simp
  finally have "length (takeWhile (\<lambda>x. x \<noteq> v) (rev xs)) = length (filter (\<lambda>x. v < x) xs)"
    by (simp flip: rev_filter)
  then have "length xs - length (takeWhile (\<lambda>x. x \<noteq> v) (rev xs)) =
             length (filter (\<lambda>x. \<not> v < x) xs)"
    by (simp add: length_filter_compl)
  also have "filter (\<lambda>x. \<not> v < x) xs = filter (\<lambda>x. x \<le> v) xs"
    by (intro filter_cong) auto
  finally have b: "length xs - length (takeWhile (\<lambda>x. x \<noteq> v) (rev xs)) =
                   length (takeWhile (\<lambda>x. x \<le> v) xs)"
    using s by (simp add: tw_le)
  have c: "list_all (\<lambda>x. x = v)
      (isel (length (takeWhile (\<lambda>x. x < v) xs), length (takeWhile (\<lambda>x. x \<le> v) xs)) xs)"
    using s by (auto simp: range_asc list_all_iff)
  show ?thesis
    using v c cv by (simp add: get_loc_def a b isel_def)
qed

lemma get_loc_desc:
  fixes v :: "'a::linorder"
  assumes s: "sorted (rev xs)" and v: "v \<in> set xs" and cv: "cast l = v"
  shows "get_loc cast xs l =
         Inr (length (takeWhile (\<lambda>x. v < x) xs), length (takeWhile (\<lambda>x. v \<le> x) xs))"
proof -
  have w: "sorted_wrt (\<lambda>x y. y \<le> x) xs"
    using s by (simp add: sorted_rev_wrt)
  have "takeWhile (\<lambda>x. x \<noteq> v) xs = takeWhile (\<lambda>x. v \<le> x \<and> x \<noteq> v) xs"
    using w v by (rule takeWhile_neq_sorted_wrt)
  also have "\<dots> = takeWhile (\<lambda>x. v < x) xs"
    by (intro takeWhile_cong) auto
  finally have a: "length (takeWhile (\<lambda>x. x \<noteq> v) xs) = length (takeWhile (\<lambda>x. v < x) xs)"
    by simp
  have "takeWhile (\<lambda>x. x \<noteq> v) (rev xs) = takeWhile (\<lambda>x. x \<le> v \<and> x \<noteq> v) (rev xs)"
    using s v by (intro takeWhile_neq_sorted_wrt) auto
  also have "\<dots> = takeWhile (\<lambda>x. x < v) (rev xs)"
    by (intro takeWhile_cong) auto
  also have "\<dots> = filter (\<lambda>x. x < v) (rev xs)"
    using s by (intro tw_less)
  finally have "length (takeWhile (\<lambda>x. x \<noteq> v) (rev xs)) = length (filter (\<lambda>x. x < v) xs)"
    by (simp flip: rev_filter)
  then have "length xs - length (takeWhile (\<lambda>x. x \<noteq> v) (rev xs)) =
             length (filter (\<lambda>x. \<not> x < v) xs)"
    by (simp add: length_filter_compl)
  also have "filter (\<lambda>x. \<not> x < v) xs = filter (\<lambda>x. v \<le> x) xs"
    by (intro filter_cong) auto
  finally have b: "length xs - length (takeWhile (\<lambda>x. x \<noteq> v) (rev xs)) =
                   length (takeWhile (\<lambda>x. v \<le> x) xs)"
    using s by (simp add: tw_ge)
  have c: "list_all (\<lambda>x. x = v)
      (isel (length (takeWhile (\<lambda>x. v < x) xs), length (takeWhile (\<lambda>x. v \<le> x) xs)) xs)"
    using s by (auto simp: range_desc list_all_iff)
  show ?thesis
    using v c cv by (simp add: get_loc_def a b isel_def)
qed

lemma get_loc_absent: "cast v \<notin> set xs \<Longrightarrow> get_loc cast xs v = Inl SliceKeyError"
  by (simp add: get_loc_def)

text \<open>
  The bound that a label stands for on an index: the label converted to the type of the
  index when that is an element, and the label itself otherwise.
\<close>

lemma get_slice_bound_asc:
  fixes v :: "'a::linorder"
  assumes "sorted xs"
  shows "get_slice_bound cast xs v s =
         Inr (case s of
                SideLeft \<Rightarrow>
                  length (takeWhile (\<lambda>x. x < (if cast v \<in> set xs then cast v else v)) xs)
              | SideRight \<Rightarrow>
                  length (takeWhile (\<lambda>x. x \<le> (if cast v \<in> set xs then cast v else v)) xs))"
proof (cases "cast v \<in> set xs")
  case True
  then show ?thesis
    using assms by (simp add: get_slice_bound_def get_loc_asc [where v = "cast v"])
next
  case False
  then show ?thesis
    using assms
    by (simp add: get_slice_bound_def get_loc_absent searchsorted_monotonic_def searchsorted_def)
qed

lemma searchsorted_desc:
  fixes v :: "'a::linorder"
  assumes "sorted (rev xs)"
  shows "length xs - searchsorted (rev xs) v SideRight = length (takeWhile (\<lambda>x. v < x) xs)"
    and "length xs - searchsorted (rev xs) v SideLeft = length (takeWhile (\<lambda>x. v \<le> x) xs)"
proof -
  have "length (takeWhile (\<lambda>x. x \<le> v) (rev xs)) = length (filter (\<lambda>x. x \<le> v) xs)"
    using assms by (simp add: tw_le flip: rev_filter)
  then have "length xs - length (takeWhile (\<lambda>x. x \<le> v) (rev xs)) =
             length (filter (\<lambda>x. \<not> x \<le> v) xs)"
    by (simp add: length_filter_compl)
  also have "filter (\<lambda>x. \<not> x \<le> v) xs = filter (\<lambda>x. v < x) xs"
    by (intro filter_cong) auto
  finally show "length xs - searchsorted (rev xs) v SideRight =
                length (takeWhile (\<lambda>x. v < x) xs)"
    using assms by (simp add: tw_greater searchsorted_def)
  have "length (takeWhile (\<lambda>x. x < v) (rev xs)) = length (filter (\<lambda>x. x < v) xs)"
    using assms by (simp add: tw_less flip: rev_filter)
  then have "length xs - length (takeWhile (\<lambda>x. x < v) (rev xs)) =
             length (filter (\<lambda>x. \<not> x < v) xs)"
    by (simp add: length_filter_compl)
  also have "filter (\<lambda>x. \<not> x < v) xs = filter (\<lambda>x. v \<le> x) xs"
    by (intro filter_cong) auto
  finally show "length xs - searchsorted (rev xs) v SideLeft =
                length (takeWhile (\<lambda>x. v \<le> x) xs)"
    using assms by (simp add: tw_ge searchsorted_def)
qed

lemma get_slice_bound_desc:
  fixes v :: "'a::linorder"
  assumes "sorted (rev xs)" "\<not> sorted xs"
  shows "get_slice_bound cast xs v s =
         Inr (case s of
                SideLeft \<Rightarrow>
                  length (takeWhile (\<lambda>x. (if cast v \<in> set xs then cast v else v) < x) xs)
              | SideRight \<Rightarrow>
                  length (takeWhile (\<lambda>x. (if cast v \<in> set xs then cast v else v) \<le> x) xs))"
proof (cases "cast v \<in> set xs")
  case True
  then show ?thesis
    using assms by (simp add: get_slice_bound_def get_loc_desc [where v = "cast v"])
next
  case False
  then show ?thesis
    using assms
    by (cases s)
      (simp_all add: get_slice_bound_def get_loc_absent searchsorted_monotonic_def
        searchsorted_desc)
qed

lemma slice_locs_asc:
  fixes lo hi :: "'a::linorder"
  assumes "sorted xs"
  shows "slice_locs cast xs lo hi =
         Inr (length (takeWhile (\<lambda>x. x < (if cast lo \<in> set xs then cast lo else lo)) xs),
              length (takeWhile (\<lambda>x. x \<le> (if cast hi \<in> set xs then cast hi else hi)) xs))"
  using assms by (simp add: slice_locs_def get_slice_bound_asc)

lemma slice_locs_desc:
  fixes lo hi :: "'a::linorder"
  assumes "sorted (rev xs)" "\<not> sorted xs"
  shows "slice_locs cast xs hi lo =
         Inr (length (takeWhile (\<lambda>x. (if cast hi \<in> set xs then cast hi else hi) < x) xs),
              length (takeWhile (\<lambda>x. (if cast lo \<in> set xs then cast lo else lo) \<le> x) xs))"
  using assms by (simp add: slice_locs_def get_slice_bound_desc)

lemma hd_le_last: "sorted xs \<Longrightarrow> xs \<noteq> [] \<Longrightarrow> hd xs \<le> last xs"
  by (cases xs) (auto)

lemma hd_gt_last:
  fixes xs :: "'a::linorder list"
  assumes "sorted (rev xs)" "\<not> sorted xs"
  shows "\<not> hd xs \<le> last xs"
proof
  assume le: "hd xs \<le> last xs"
  have ne: "xs \<noteq> []" using assms(2) by auto
  have w: "sorted_wrt (\<lambda>x y. y \<le> x) xs" using assms(1) by (simp add: sorted_rev_wrt)
  have up: "\<forall>x\<in>set xs. x \<le> hd xs"
    using w ne by (cases xs) auto
  have r: "sorted (rev xs)" by (rule assms(1))
  have "\<forall>x\<in>set (rev xs). hd (rev xs) \<le> x"
    using r ne by (cases "rev xs") auto
  then have lo: "\<forall>x\<in>set xs. last xs \<le> x"
    using ne by (simp add: hd_rev)
  have "\<forall>x\<in>set xs. \<forall>y\<in>set xs. x \<le> y"
    using up lo le by (meson order_trans)
  then have "sorted xs"
    by (induction xs) auto
  with assms(2) show False by simp
qed

section \<open>The order-safe slice\<close>

lemma sel_values_monotonic:
  assumes "xs \<noteq> []" "sorted xs \<or> sorted (rev xs)"
  shows "sel_values cast lo hi xs =
         Inr (filter (\<lambda>x. (if cast lo \<in> set xs then cast lo else lo) \<le> x \<and>
                          x \<le> (if cast hi \<in> set xs then cast hi else hi)) xs)"
proof (cases "sorted xs")
  case True
  then have "hd xs \<le> last xs" using assms(1) by (simp add: hd_le_last)
  then show ?thesis
    using True assms(1)
    by (simp add: sel_values_def sel_coordinate_def get_slice_def slice_locs_asc range_asc)
next
  case False
  then have r: "sorted (rev xs)" using assms(2) by simp
  then have "\<not> hd xs \<le> last xs" using False by (rule hd_gt_last)
  then show ?thesis
    using False r assms(1)
    by (simp add: sel_values_def sel_coordinate_def get_slice_def slice_locs_desc range_desc)
qed

text \<open>
  When the conversion of each bound keeps its place among the coordinate values (as
  rounding to the nearest number of the coordinate's type does, the values being of that
  type), the selected values are those between the two converted bounds.
\<close>

lemma converted_bounds:
  fixes cast :: "real \<Rightarrow> real"
  assumes lo: "\<forall>x\<in>set xs. (x \<le> lo \<longrightarrow> x \<le> cast lo) \<and> (lo \<le> x \<longrightarrow> cast lo \<le> x)"
    and hi: "\<forall>x\<in>set xs. (x \<le> hi \<longrightarrow> x \<le> cast hi) \<and> (hi \<le> x \<longrightarrow> cast hi \<le> x)"
  shows "filter (\<lambda>x. (if cast lo \<in> set xs then cast lo else lo) \<le> x \<and>
                     x \<le> (if cast hi \<in> set xs then cast hi else hi)) xs =
         filter (\<lambda>x. cast lo \<le> x \<and> x \<le> cast hi) xs"
proof (rule filter_cong [OF refl])
  fix x assume x: "x \<in> set xs"
  have l: "((if cast lo \<in> set xs then cast lo else lo) \<le> x) = (cast lo \<le> x)"
  proof (cases "cast lo \<in> set xs")
    case True
    then show ?thesis by simp
  next
    case False
    then have ne: "x \<noteq> cast lo" using x by auto
    have "lo \<le> x \<Longrightarrow> cast lo \<le> x" using lo x by blast
    moreover have "cast lo \<le> x \<Longrightarrow> lo \<le> x"
    proof (rule ccontr)
      assume c: "cast lo \<le> x" and n: "\<not> lo \<le> x"
      then have "x \<le> cast lo" using lo x by auto
      with c ne show False by simp
    qed
    ultimately show ?thesis using False by auto
  qed
  have h: "(x \<le> (if cast hi \<in> set xs then cast hi else hi)) = (x \<le> cast hi)"
  proof (cases "cast hi \<in> set xs")
    case True
    then show ?thesis by simp
  next
    case False
    then have ne: "x \<noteq> cast hi" using x by auto
    have "x \<le> hi \<Longrightarrow> x \<le> cast hi" using hi x by blast
    moreover have "x \<le> cast hi \<Longrightarrow> x \<le> hi"
    proof (rule ccontr)
      assume c: "x \<le> cast hi" and n: "\<not> x \<le> hi"
      then have "cast hi \<le> x" using hi x by auto
      with c ne show False by simp
    qed
    ultimately show ?thesis using False by auto
  qed
  show "((if cast lo \<in> set xs then cast lo else lo) \<le> x \<and>
         x \<le> (if cast hi \<in> set xs then cast hi else hi)) =
        (cast lo \<le> x \<and> x \<le> cast hi)"
    by (simp only: l h)
qed

text \<open>
  The conversion to float32 is monotone. So are all conversions that round to the nearest
  number of a type; and a monotone conversion that leaves the coordinate values as they
  are (they are of the coordinate's type) never moves a label across a coordinate value.
\<close>

lemma round_even_of_int [simp]: "round_even (of_int k) = k"
  by (simp add: round_even_def)

lemma round_even_bounds: "\<lfloor>r\<rfloor> \<le> round_even r \<and> round_even r \<le> \<lfloor>r\<rfloor> + 1"
  by (simp add: round_even_def Let_def)

lemma round_even_mono:
  assumes "r \<le> r'"
  shows "round_even r \<le> round_even r'"
proof -
  have f: "\<lfloor>r\<rfloor> \<le> \<lfloor>r'\<rfloor>" using assms by (rule floor_mono)
  show ?thesis
  proof (cases "\<lfloor>r\<rfloor> = \<lfloor>r'\<rfloor>")
    case True
    have "r - of_int \<lfloor>r\<rfloor> \<le> r' - of_int \<lfloor>r'\<rfloor>" using assms True by simp
    then show ?thesis
      using True by (auto simp: round_even_def Let_def)
  next
    case False
    then have "\<lfloor>r\<rfloor> + 1 \<le> \<lfloor>r'\<rfloor>" using f by simp
    then show ?thesis
      using round_even_bounds [of r] round_even_bounds [of r'] by linarith
  qed
qed

lemma round_even_le: "r \<le> of_int k \<Longrightarrow> round_even r \<le> k"
  using round_even_mono [of r "of_int k"] by simp

lemma round_even_ge: "of_int k \<le> r \<Longrightarrow> k \<le> round_even r"
  using round_even_mono [of "of_int k" r] by simp

lemma float32_alt:
  "v \<noteq> 0 \<Longrightarrow>
   float32 v = of_int (round_even (v / 2 powr (of_int (float_exponent v) - 23))) *
               2 powr (of_int (float_exponent v) - 23)"
  by (simp add: float32_def Let_def)

lemma float32_zero [simp]: "float32 0 = 0"
  by (simp add: float32_def)

lemma float_exponent_upper:
  assumes "v \<noteq> 0"
  shows "\<bar>v\<bar> < 2 powr (of_int (float_exponent v) + 1)"
proof -
  have p: "0 < \<bar>v\<bar>" using assms by simp
  have "log 2 \<bar>v\<bar> < of_int \<lfloor>log 2 \<bar>v\<bar>\<rfloor> + 1" by linarith
  also have "\<dots> \<le> of_int (float_exponent v) + 1" by (simp add: float_exponent_def)
  finally have "2 powr (log 2 \<bar>v\<bar>) < 2 powr (of_int (float_exponent v) + 1)"
    by (simp only: powr_less_cancel_iff)
  then show ?thesis using p by simp
qed

lemma float_exponent_lower:
  assumes "v \<noteq> 0" "- 126 < float_exponent v"
  shows "2 powr (of_int (float_exponent v)) \<le> \<bar>v\<bar>"
proof -
  have p: "0 < \<bar>v\<bar>" using assms by simp
  have "float_exponent v = \<lfloor>log 2 \<bar>v\<bar>\<rfloor>"
    using assms(2) by (simp add: float_exponent_def max_def split: if_splits)
  then have "of_int (float_exponent v) \<le> log 2 \<bar>v\<bar>" by simp
  then have "2 powr (of_int (float_exponent v)) \<le> 2 powr (log 2 \<bar>v\<bar>)"
    by (simp only: powr_le_cancel_iff)
  then show ?thesis using p by simp
qed

lemma float_exponent_mono:
  assumes "v \<noteq> 0" "\<bar>v\<bar> \<le> \<bar>v'\<bar>"
  shows "float_exponent v \<le> float_exponent v'"
proof -
  have "0 < \<bar>v\<bar>" using assms by simp
  then have "log 2 \<bar>v\<bar> \<le> log 2 \<bar>v'\<bar>" using assms(2) by simp
  then have "\<lfloor>log 2 \<bar>v\<bar>\<rfloor> \<le> \<lfloor>log 2 \<bar>v'\<bar>\<rfloor>" by (rule floor_mono)
  then show ?thesis by (simp add: float_exponent_def)
qed

lemma spacing_pos: "0 < (2::real) powr x"
  by simp

lemma spacing_scale:
  "2 ^ 24 * (2::real) powr (of_int e - 23) = 2 powr (of_int e + 1)"
  "2 ^ 23 * (2::real) powr (of_int e - 23) = 2 powr (of_int e)"
proof -
  have "of_int e + 1 = 24 + (of_int e - 23 :: real)" by simp
  then have "(2::real) powr (of_int e + 1) = 2 powr (24 + (of_int e - 23))" by (simp only:)
  also have "\<dots> = 2 powr 24 * 2 powr (of_int e - 23)" by (simp only: powr_add)
  also have "(2::real) powr 24 = 2 ^ 24" by (simp add: powr_numeral)
  finally show "2 ^ 24 * (2::real) powr (of_int e - 23) = 2 powr (of_int e + 1)" by simp
  have "of_int e = 23 + (of_int e - 23 :: real)" by simp
  then have "(2::real) powr (of_int e) = 2 powr (23 + (of_int e - 23))" by (simp only:)
  also have "\<dots> = 2 powr 23 * 2 powr (of_int e - 23)" by (simp only: powr_add)
  also have "(2::real) powr 23 = 2 ^ 23" by (simp add: powr_numeral)
  finally show "2 ^ 23 * (2::real) powr (of_int e - 23) = 2 powr (of_int e)" by simp
qed

lemma float32_pos_bounds:
  assumes "0 < v"
  shows "0 \<le> float32 v"
    and "float32 v \<le> 2 powr (of_int (float_exponent v) + 1)"
    and "- 126 < float_exponent v \<Longrightarrow> 2 powr (of_int (float_exponent v)) \<le> float32 v"
proof -
  let ?e = "float_exponent v"
  let ?u = "(2::real) powr (of_int ?e - 23)"
  have nz: "v \<noteq> 0" using assms by simp
  have u: "0 < ?u" by simp
  have f: "float32 v = of_int (round_even (v / ?u)) * ?u" using nz by (rule float32_alt)
  have "of_int 0 \<le> v / ?u" using assms u by simp
  then have "0 \<le> round_even (v / ?u)" by (rule round_even_ge)
  then show "0 \<le> float32 v" using u by (simp add: f)
  have "v < 2 powr (of_int ?e + 1)" using float_exponent_upper [OF nz] assms by simp
  then have "v < 2 ^ 24 * ?u" by (simp only: spacing_scale)
  then have "v / ?u \<le> of_int (2 ^ 24)" using u by (simp add: pos_divide_le_eq)
  then have "round_even (v / ?u) \<le> 2 ^ 24" by (rule round_even_le)
  then have "of_int (round_even (v / ?u)) \<le> (2 ^ 24 :: real)"
    by (metis of_int_le_iff of_int_numeral of_int_power)
  then have "of_int (round_even (v / ?u)) * ?u \<le> 2 ^ 24 * ?u"
    using u by (simp only: mult_le_cancel_right_pos)
  then show "float32 v \<le> 2 powr (of_int ?e + 1)" by (simp only: f spacing_scale)
  assume "- 126 < ?e"
  then have "2 powr (of_int ?e) \<le> v" using float_exponent_lower [OF nz] assms by simp
  then have "2 ^ 23 * ?u \<le> v" by (simp only: spacing_scale)
  then have "of_int (2 ^ 23) \<le> v / ?u" using u by (simp add: pos_le_divide_eq)
  then have "2 ^ 23 \<le> round_even (v / ?u)" by (rule round_even_ge)
  then have "(2 ^ 23 :: real) \<le> of_int (round_even (v / ?u))"
    by (metis of_int_le_iff of_int_numeral of_int_power)
  then have "2 ^ 23 * ?u \<le> of_int (round_even (v / ?u)) * ?u"
    using u by (simp only: mult_le_cancel_right_pos)
  then show "2 powr (of_int ?e) \<le> float32 v" by (simp only: f spacing_scale)
qed

lemma float32_neg_bounds:
  assumes "v < 0"
  shows "float32 v \<le> 0"
    and "- (2 powr (of_int (float_exponent v) + 1)) \<le> float32 v"
    and "- 126 < float_exponent v \<Longrightarrow> float32 v \<le> - (2 powr (of_int (float_exponent v)))"
proof -
  let ?e = "float_exponent v"
  let ?u = "(2::real) powr (of_int ?e - 23)"
  have nz: "v \<noteq> 0" using assms by simp
  have u: "0 < ?u" by simp
  have f: "float32 v = of_int (round_even (v / ?u)) * ?u" using nz by (rule float32_alt)
  have "v / ?u \<le> of_int 0" using assms u by (simp add: divide_le_0_iff)
  then have "round_even (v / ?u) \<le> 0" by (rule round_even_le)
  then show "float32 v \<le> 0" using u by (simp add: f mult_le_0_iff)
  have "- (2 powr (of_int ?e + 1)) < v" using float_exponent_upper [OF nz] assms by simp
  then have "- (2 ^ 24 * ?u) < v" by (simp only: spacing_scale)
  then have "of_int (- (2 ^ 24)) \<le> v / ?u" using u by (simp add: pos_le_divide_eq)
  then have "- (2 ^ 24) \<le> round_even (v / ?u)" by (rule round_even_ge)
  then have "- (2 ^ 24 :: real) \<le> of_int (round_even (v / ?u))"
    by (metis of_int_le_iff of_int_minus of_int_numeral of_int_power)
  then have "- (2 ^ 24) * ?u \<le> of_int (round_even (v / ?u)) * ?u"
    using u by (simp only: mult_le_cancel_right_pos)
  then have "- (2 ^ 24 * ?u) \<le> of_int (round_even (v / ?u)) * ?u" by simp
  then show "- (2 powr (of_int ?e + 1)) \<le> float32 v" by (simp only: f spacing_scale)
  assume "- 126 < ?e"
  then have "v \<le> - (2 powr (of_int ?e))" using float_exponent_lower [OF nz] assms by simp
  then have "v \<le> - (2 ^ 23 * ?u)" by (simp only: spacing_scale)
  then have "v / ?u \<le> of_int (- (2 ^ 23))" using u by (simp add: pos_divide_le_eq)
  then have "round_even (v / ?u) \<le> - (2 ^ 23)" by (rule round_even_le)
  then have "of_int (round_even (v / ?u)) \<le> - (2 ^ 23 :: real)"
    by (metis of_int_le_iff of_int_minus of_int_numeral of_int_power)
  then have "of_int (round_even (v / ?u)) * ?u \<le> - (2 ^ 23) * ?u"
    using u by (simp only: mult_le_cancel_right_pos)
  then have "of_int (round_even (v / ?u)) * ?u \<le> - (2 ^ 23 * ?u)" by simp
  then show "float32 v \<le> - (2 powr (of_int ?e))" by (simp only: f spacing_scale)
qed

lemma float32_same_exponent:
  assumes "v \<noteq> 0" "v' \<noteq> 0" "v \<le> v'" "float_exponent v = float_exponent v'"
  shows "float32 v \<le> float32 v'"
proof -
  let ?u = "(2::real) powr (of_int (float_exponent v') - 23)"
  have u: "0 < ?u" by simp
  have "v / ?u \<le> v' / ?u" using assms(3) u by (simp add: divide_right_mono)
  then have "round_even (v / ?u) \<le> round_even (v' / ?u)" by (rule round_even_mono)
  then have "of_int (round_even (v / ?u)) * ?u \<le> of_int (round_even (v' / ?u)) * ?u"
    using u by simp
  then show ?thesis
    using assms(1,2,4) by (simp add: float32_alt)
qed

lemma powr_step:
  fixes e e' :: int
  assumes "e < e'"
  shows "(2::real) powr (of_int e + 1) \<le> 2 powr (of_int e')"
proof -
  have "of_int e + 1 \<le> (of_int e' :: real)" using assms by linarith
  then show ?thesis by (simp only: powr_le_cancel_iff)
qed

lemma float32_mono:
  assumes "v \<le> v'"
  shows "float32 v \<le> float32 v'"
proof -
  consider "0 < v" | "v' < 0" | "v \<le> 0" "0 \<le> v'" by linarith
  then show ?thesis
  proof cases
    case 1
    then have p: "0 < v'" using assms by simp
    have nz: "v \<noteq> 0" "v' \<noteq> 0" using 1 p by simp_all
    have le: "float_exponent v \<le> float_exponent v'"
      using nz(1) assms 1 by (intro float_exponent_mono) simp_all
    show ?thesis
    proof (cases "float_exponent v = float_exponent v'")
      case True
      with nz assms show ?thesis by (rule float32_same_exponent)
    next
      case False
      then have lt: "float_exponent v < float_exponent v'" using le by simp
      have "- 126 \<le> float_exponent v" by (simp add: float_exponent_def)
      then have big: "- 126 < float_exponent v'" using lt by simp
      have "float32 v \<le> 2 powr (of_int (float_exponent v) + 1)"
        using 1 by (rule float32_pos_bounds)
      also have "\<dots> \<le> 2 powr (of_int (float_exponent v'))"
        using lt by (rule powr_step)
      also have "\<dots> \<le> float32 v'"
        using p big by (rule float32_pos_bounds)
      finally show ?thesis .
    qed
  next
    case 2
    then have n: "v < 0" using assms by simp
    have nz: "v \<noteq> 0" "v' \<noteq> 0" using 2 n by simp_all
    have le: "float_exponent v' \<le> float_exponent v"
      using nz(2) assms 2 n by (intro float_exponent_mono) simp_all
    show ?thesis
    proof (cases "float_exponent v = float_exponent v'")
      case True
      with nz assms show ?thesis by (rule float32_same_exponent)
    next
      case False
      then have lt: "float_exponent v' < float_exponent v" using le by simp
      have "- 126 \<le> float_exponent v'" by (simp add: float_exponent_def)
      then have big: "- 126 < float_exponent v" using lt by simp
      have "float32 v \<le> - (2 powr (of_int (float_exponent v)))"
        using n big by (rule float32_neg_bounds)
      also have "\<dots> \<le> - (2 powr (of_int (float_exponent v') + 1))"
        using powr_step [OF lt] by simp
      also have "\<dots> \<le> float32 v'"
        using 2 by (rule float32_neg_bounds)
      finally show ?thesis .
    qed
  next
    case 3
    have "float32 v \<le> 0"
    proof (cases "v = 0")
      case True
      then show ?thesis by simp
    next
      case False
      then have "v < 0" using 3 by simp
      then show ?thesis by (rule float32_neg_bounds)
    qed
    moreover have "0 \<le> float32 v'"
    proof (cases "v' = 0")
      case True
      then show ?thesis by simp
    next
      case False
      then have "0 < v'" using 3 by simp
      then show ?thesis by (rule float32_pos_bounds)
    qed
    ultimately show ?thesis by simp
  qed
qed

lemma monotone_conversion_keeps_place:
  fixes cast :: "real \<Rightarrow> real"
  assumes mono: "\<And>a b. a \<le> b \<Longrightarrow> cast a \<le> cast b"
    and fixed: "\<forall>x\<in>set xs. cast x = x"
  shows "\<forall>x\<in>set xs. (x \<le> v \<longrightarrow> x \<le> cast v) \<and> (v \<le> x \<longrightarrow> cast v \<le> x)"
proof (intro ballI conjI impI)
  fix x assume x: "x \<in> set xs"
  then have c: "cast x = x" using fixed by simp
  show "x \<le> cast v" if "x \<le> v" using mono [OF that] c by simp
  show "cast v \<le> x" if "v \<le> x" using mono [OF that] c by simp
qed

lemma float32_keeps_place:
  assumes "\<forall>x\<in>set xs. float32 x = x"
  shows "\<forall>x\<in>set xs. (x \<le> v \<longrightarrow> x \<le> float32 v) \<and> (v \<le> x \<longrightarrow> float32 v \<le> x)"
  using float32_mono assms by (rule monotone_conversion_keeps_place)

text \<open>
  The float32 numbers between 32 and 64 are the multiples of \<open>1 / 262144\<close>: there the
  conversion rounds to the nearest multiple. So 37.6 becomes 37.599998474... and 37.85
  becomes 37.849998474...
\<close>

lemma floor_log2_binade:
  fixes v :: real
  assumes "32 \<le> v" "v < 64"
  shows "\<lfloor>log 2 v\<rfloor> = 5"
proof -
  have p: "0 < v" using assms by simp
  have "log 2 32 \<le> log 2 v" using assms p by simp
  moreover have "log 2 32 = 5"
  proof -
    have "log 2 (2 ^ 5) = 5" by (simp only: log_pow_cancel)
    then show ?thesis by simp
  qed
  moreover have "log 2 v < log 2 64" using assms p by simp
  moreover have "log 2 64 = 6"
  proof -
    have "log 2 (2 ^ 6) = 6" by (simp only: log_pow_cancel)
    then show ?thesis by simp
  qed
  ultimately have "5 \<le> log 2 v" "log 2 v < 6" by simp_all
  then show ?thesis by (simp add: floor_eq_iff)
qed

lemma float32_binade:
  assumes "32 \<le> \<bar>v\<bar>" "\<bar>v\<bar> < 64"
  shows "float32 v = of_int (round_even (v * 262144)) / 262144"
proof -
  have e: "\<lfloor>log 2 \<bar>v\<bar>\<rfloor> = 5" using assms by (rule floor_log2_binade)
  have u: "2 powr (- 18) = (1 / 262144 :: real)"
  proof -
    have "(2::real) powr (- 18) = 1 / 2 powr 18" by (simp add: powr_minus_divide)
    also have "(2::real) powr 18 = 2 ^ 18" by (simp add: powr_numeral)
    finally show ?thesis by simp
  qed
  have "v \<noteq> 0" using assms by auto
  then show ?thesis
    by (simp add: float32_def float_exponent_def e Let_def u)
qed

lemma float32_37_6: "float32 (188 / 5) = 4928307 / 131072"
  by (simp add: float32_binade round_even_def)

lemma float32_37_85: "float32 (757 / 20) = 4961075 / 131072"
  by (simp add: float32_binade round_even_def)

text \<open>
  With bounds that the conversion does not move across a coordinate value, the array and
  its reversal give the same values, among them every coordinate value of the interval:
  the values between the two converted bounds.
\<close>

lemma sel_values_converted:
  fixes cast :: "real \<Rightarrow> real"
  assumes "xs \<noteq> []" "sorted xs \<or> sorted (rev xs)"
    and "\<forall>x\<in>set xs. (x \<le> lo \<longrightarrow> x \<le> cast lo) \<and> (lo \<le> x \<longrightarrow> cast lo \<le> x)"
    and "\<forall>x\<in>set xs. (x \<le> hi \<longrightarrow> x \<le> cast hi) \<and> (hi \<le> x \<longrightarrow> cast hi \<le> x)"
  shows "\<exists>ys. sel_values cast lo hi xs = Inr ys \<and>
              sel_values cast lo hi (rev xs) = Inr (rev ys) \<and>
              (\<forall>x\<in>set xs. lo \<le> x \<and> x \<le> hi \<longrightarrow> x \<in> set ys) \<and>
              ys = filter (\<lambda>x. cast lo \<le> x \<and> x \<le> cast hi) xs"
proof -
  let ?ys = "filter (\<lambda>x. cast lo \<le> x \<and> x \<le> cast hi) xs"
  have a: "sel_values cast lo hi xs = Inr ?ys"
    using sel_values_monotonic [OF assms(1,2)] converted_bounds [OF assms(3,4)] by simp
  have "rev xs \<noteq> []" "sorted (rev xs) \<or> sorted (rev (rev xs))"
    using assms by auto
  then have "sel_values cast lo hi (rev xs) =
         Inr (filter (\<lambda>x. (if cast lo \<in> set (rev xs) then cast lo else lo) \<le> x \<and>
                          x \<le> (if cast hi \<in> set (rev xs) then cast hi else hi)) (rev xs))"
    by (rule sel_values_monotonic)
  moreover have "filter (\<lambda>x. (if cast lo \<in> set (rev xs) then cast lo else lo) \<le> x \<and>
                          x \<le> (if cast hi \<in> set (rev xs) then cast hi else hi)) (rev xs) =
         filter (\<lambda>x. cast lo \<le> x \<and> x \<le> cast hi) (rev xs)"
    by (rule converted_bounds) (use assms(3,4) in simp_all)
  ultimately have "sel_values cast lo hi (rev xs) =
         Inr (filter (\<lambda>x. cast lo \<le> x \<and> x \<le> cast hi) (rev xs))"
    by (simp only:)
  then have b: "sel_values cast lo hi (rev xs) = Inr (rev ?ys)"
    by (simp add: rev_filter)
  have c: "\<forall>x\<in>set xs. lo \<le> x \<and> x \<le> hi \<longrightarrow> x \<in> set ?ys"
    using assms(3,4) by auto
  show ?thesis using a b c by blast
qed

lemma float32_values:
  "float32 (75 / 2) = 75 / 2"
  "float32 (4928307 / 131072) = 4928307 / 131072"
  "float32 (9882829 / 262144) = 9882829 / 262144"
  by (simp_all add: float32_binade round_even_def)

text \<open>
  Claim C1, as the code has it. For a non-empty coordinate array stored in ascending or
  in descending order, of a type whose conversion is monotone (float64, float32) and
  whose values are of that type: the slice of \<^verbatim>\<open>_get_slice\<close> selects the same values
  from the array and from its reversal (the reversal's selection is the reversed
  selection); the selection holds every coordinate value that lies in the closed interval
  from \<open>lo\<close> to \<open>hi\<close>, so it is non-empty whenever some coordinate value lies in the
  interval; and it consists of the coordinate values between the two converted bounds.
\<close>

theorem get_slice_order_safe:
  fixes cast :: "real \<Rightarrow> real"
  assumes "xs \<noteq> []" "sorted xs \<or> sorted (rev xs)"
    and "mono cast" "\<forall>x\<in>set xs. cast x = x"
  shows "\<exists>ys. sel_values cast lo hi xs = Inr ys \<and>
              sel_values cast lo hi (rev xs) = Inr (rev ys) \<and>
              (\<forall>x\<in>set xs. lo \<le> x \<and> x \<le> hi \<longrightarrow> x \<in> set ys) \<and>
              ys = filter (\<lambda>x. cast lo \<le> x \<and> x \<le> cast hi) xs"
proof -
  have m: "\<And>a b. a \<le> b \<Longrightarrow> cast a \<le> cast b"
    using assms(3) by (simp add: mono_def)
  have l: "\<forall>x\<in>set xs. (x \<le> lo \<longrightarrow> x \<le> cast lo) \<and> (lo \<le> x \<longrightarrow> cast lo \<le> x)"
    using m assms(4) by (rule monotone_conversion_keeps_place)
  have h: "\<forall>x\<in>set xs. (x \<le> hi \<longrightarrow> x \<le> cast hi) \<and> (hi \<le> x \<longrightarrow> cast hi \<le> x)"
    using m assms(4) by (rule monotone_conversion_keeps_place)
  show ?thesis
    using assms(1,2) l h by (rule sel_values_converted)
qed

text \<open>
  The theorem at the ascending float64 array 0, 1, 2, 3 and its reversal, with bounds 1
  and 2; and at a float32 array with the bounds 37.6 and 37.85, where the lower bound is
  looked up as 37.599998474..., an element of the array, which the selection keeps.
\<close>

theorem get_slice_order_safe_witness:
  "sel_values (\<lambda>v. v) 1 2 [0, 1, 2, 3] = Inr [1, 2] \<and>
   sel_values (\<lambda>v. v) 1 2 [3, 2, 1, 0] = Inr [2, 1] \<and>
   sel_values float32 (188 / 5) (757 / 20) [75 / 2, 4928307 / 131072, 9882829 / 262144] =
     Inr [4928307 / 131072, 9882829 / 262144]"
proof -
  have i: "mono (\<lambda>v::real. v)" by (simp add: mono_def)
  have f: "mono float32" by (simp add: mono_def float32_mono)
  show ?thesis
    using get_slice_order_safe [of "[0, 1, 2, 3]" "\<lambda>v. v" 1 2, OF _ _ i]
      get_slice_order_safe
        [of "[75 / 2, 4928307 / 131072, 9882829 / 262144]" float32 "188 / 5" "757 / 20",
         OF _ _ f]
    by (simp add: float32_37_6 float32_37_85 float32_values)
qed

text \<open>
  Claim C1 as stated fails: the interval from 1/4 to 3/4 lies inside the coverage of the
  float64 array 0, 1, 2 (between its first and last value), and the selection is empty in
  both stored orders, since no grid point lies in the interval.
\<close>

theorem get_slice_between_grid_points:
  "sorted [0, 1, 2 :: real] \<and> hd [0, 1, 2] \<le> (1/4 :: real) \<and> (3/4 :: real) \<le> last [0, 1, 2] \<and>
   sel_values (\<lambda>v. v) (1/4) (3/4) [0, 1, 2] = Inr [] \<and>
   sel_values (\<lambda>v. v) (1/4) (3/4) [2, 1, 0] = Inr []"
  by (simp add: sel_values_def sel_coordinate_def get_slice_def slice_locs_def
      get_slice_bound_def get_loc_def searchsorted_monotonic_def searchsorted_def isel_def)

section \<open>The cosine-latitude weights\<close>

lemma deg2rad_60: "cos (deg2rad 60) = 1 / 2"
proof -
  have "deg2rad 60 = pi / 3" by (simp add: deg2rad_def)
  then show ?thesis by (simp only: cos_60)
qed

lemma deg2rad_0: "cos (deg2rad 0) = 1"
  by (simp add: deg2rad_def)

lemma sum_list_upt_const:
  fixes c :: real
  assumes "\<And>j. j < n \<Longrightarrow> f j = c"
  shows "(\<Sum>j\<leftarrow>[0..<n]. f j) = real n * c"
proof -
  have "map f [0..<n] = map (\<lambda>j. c) [0..<n]"
    using assms by (intro map_cong) auto
  then have "(\<Sum>j\<leftarrow>[0..<n]. f j) = (\<Sum>j\<leftarrow>[0..<n]. c)" by (simp only:)
  also have "\<dots> = real n * c" by (simp add: sum_list_triv)
  finally show ?thesis .
qed

lemma sum_list_positive:
  fixes xs :: "real list"
  assumes "xs \<noteq> []" "\<forall>x\<in>set xs. 0 < x"
  shows "0 < sum_list xs"
proof (cases xs)
  case Nil
  with assms show ?thesis by simp
next
  case (Cons y ys)
  have "0 \<le> sum_list ys"
    using assms(2) Cons by (intro sum_list_nonneg) (auto intro: less_imp_le)
  moreover have "0 < y" using assms(2) Cons by simp
  ultimately show ?thesis using Cons by simp
qed

lemma weights_pos:
  assumes "- 90 < lat" "lat < 90"
  shows "0 < cos (deg2rad lat)"
proof (rule cos_gt_zero_pi)
  have p: "0 < pi / 180" by simp
  have "(- 90) * (pi / 180) < lat * (pi / 180)"
    using assms(1) p by (rule mult_strict_right_mono)
  then show "- (pi / 2) < deg2rad lat" by (simp add: deg2rad_def)
  have "lat * (pi / 180) < 90 * (pi / 180)"
    using assms(2) p by (rule mult_strict_right_mono)
  then show "deg2rad lat < pi / 2" by (simp add: deg2rad_def)
qed

lemma total_weight_pos:
  assumes w: "\<forall>x\<in>set w. 0 < x"
    and i: "i < length w" and j: "j < nlon" and c: "plane i j \<noteq> None"
  shows "0 < total_weight w nlon plane"
proof -
  let ?g = "\<lambda>i j. case plane i j of None \<Rightarrow> 0 | Some v \<Rightarrow> w ! i"
  let ?f = "\<lambda>i. \<Sum>j\<leftarrow>[0..<nlon]. ?g i j"
  have nn: "0 \<le> ?g a b" if "a < length w" for a b
    using w that by (auto split: option.splits intro: less_imp_le)
  have inner: "?f a = sum (?g a) {0..<nlon}" for a
    by (simp add: interv_sum_list_conv_sum_set_nat)
  have outer: "total_weight w nlon plane = sum ?f {0..<length w}"
    by (simp add: total_weight_def interv_sum_list_conv_sum_set_nat)
  have fnn: "0 \<le> ?f a" if "a < length w" for a
    unfolding inner using nn [OF that] by (intro sum_nonneg) 
  have "0 < ?g i j" using w i c by (auto split: option.splits)
  then have "0 < sum (?g i) {0..<nlon}"
    using j nn [OF i] by (intro sum_pos2 [where i = j]) auto
  then have "0 < ?f i" by (simp only: inner)
  then have "0 < sum ?f {0..<length w}"
    using i fnn by (intro sum_pos2 [where i = i]) auto
  then show ?thesis by (simp only: outer)
qed

lemma area_mean_nth:
  "t < length (sub_time sub) \<Longrightarrow>
   area_mean sub ! t = weighted_mean (weights sub) (length (sub_lon sub)) (sub_cells sub t)"
  by (simp add: area_mean_def)

lemma sum_list_upt_zero:
  fixes f :: "nat \<Rightarrow> nat \<Rightarrow> real"
  assumes "\<And>i j. i < n \<Longrightarrow> j < m \<Longrightarrow> f i j = 0"
  shows "(\<Sum>i\<leftarrow>[0..<n]. \<Sum>j\<leftarrow>[0..<m]. f i j) = 0"
proof -
  have "(\<Sum>j\<leftarrow>[0..<m]. f i j) = real m * 0" if "i < n" for i
    by (rule sum_list_upt_const) (simp add: assms that)
  then have "(\<Sum>i\<leftarrow>[0..<n]. \<Sum>j\<leftarrow>[0..<m]. f i j) = real n * 0"
    by (intro sum_list_upt_const) simp
  then show ?thesis by simp
qed

lemma total_weight_all_missing:
  assumes "\<And>i j. i < length w \<Longrightarrow> j < nlon \<Longrightarrow> plane i j = None"
  shows "total_weight w nlon plane = 0"
  unfolding total_weight_def by (rule sum_list_upt_zero) (simp add: assms)

lemma two_row_mean:
  assumes w: "weights sub = [w0, w1]" and pos: "0 < w0 + w1"
    and lon: "sub_lon sub \<noteq> []"
    and rows: "\<forall>t<length (sub_time sub). \<forall>j<length (sub_lon sub).
                 sub_cells sub t 0 j = Some x0 \<and> sub_cells sub t 1 j = Some x1"
  shows "area_mean sub =
         replicate (length (sub_time sub)) (Some ((w0 * x0 + w1 * x1) / (w0 + w1)))"
proof -
  let ?n = "length (sub_lon sub)"
  have n: "0 < real ?n" using lon by simp
  have m: "weighted_mean (weights sub) ?n (sub_cells sub t) =
           Some ((w0 * x0 + w1 * x1) / (w0 + w1))"
    if t: "t < length (sub_time sub)" for t
  proof -
    have r0: "\<And>j. j < ?n \<Longrightarrow> sub_cells sub t 0 j = Some x0"
      and r1: "\<And>j. j < ?n \<Longrightarrow> sub_cells sub t 1 j = Some x1"
      using rows t by auto
    have u: "[0..<length [w0, w1]] = [0, 1]"
      by (simp add: upt_rec)
    have s0: "(\<Sum>j\<leftarrow>[0..<?n]. (case sub_cells sub t 0 j of None \<Rightarrow> 0 | Some v \<Rightarrow> v) * w0) =
              real ?n * (x0 * w0)"
      by (rule sum_list_upt_const) (use r0 in simp)
    have s1: "(\<Sum>j\<leftarrow>[0..<?n]. (case sub_cells sub t 1 j of None \<Rightarrow> 0 | Some v \<Rightarrow> v) * w1) =
              real ?n * (x1 * w1)"
      by (rule sum_list_upt_const) (use r1 in simp)
    have t0: "(\<Sum>j\<leftarrow>[0..<?n]. (case sub_cells sub t 0 j of None \<Rightarrow> 0 | Some v \<Rightarrow> w0)) =
              real ?n * w0"
      by (rule sum_list_upt_const) (use r0 in simp)
    have t1: "(\<Sum>j\<leftarrow>[0..<?n]. (case sub_cells sub t 1 j of None \<Rightarrow> 0 | Some v \<Rightarrow> w1)) =
              real ?n * w1"
      by (rule sum_list_upt_const) (use r1 in simp)
    have ws: "weighted_sum (weights sub) ?n (sub_cells sub t) =
              real ?n * (x0 * w0) + real ?n * (x1 * w1)"
      using s0 s1 unfolding weighted_sum_def w u by simp
    have tw: "total_weight (weights sub) ?n (sub_cells sub t) = real ?n * w0 + real ?n * w1"
      using t0 t1 unfolding total_weight_def w u by (simp cong: option.case_cong)
    have nz: "real ?n * w0 + real ?n * w1 \<noteq> 0"
    proof -
      have "0 < real ?n * (w0 + w1)" using n pos by simp
      then show ?thesis by (simp add: algebra_simps)
    qed
    have "(real ?n * (x0 * w0) + real ?n * (x1 * w1)) / (real ?n * w0 + real ?n * w1) =
          (w0 * x0 + w1 * x1) / (w0 + w1)"
    proof -
      have "(real ?n * (x0 * w0) + real ?n * (x1 * w1)) / (real ?n * w0 + real ?n * w1) =
            (real ?n * (w0 * x0 + w1 * x1)) / (real ?n * (w0 + w1))"
        by (simp add: algebra_simps)
      also have "\<dots> = (w0 * x0 + w1 * x1) / (w0 + w1)"
        using n by simp
      finally show ?thesis .
    qed
    then show ?thesis
      using nz by (simp add: weighted_mean_def sum_of_weights_def ws tw)
  qed
  show ?thesis
    by (rule nth_equalityI) (simp_all add: area_mean_def m)
qed

text \<open>
  Claim C2. The weights are the cosines of the latitudes in radians, one per latitude
  row, whatever the latitudes are. For a grid of two rows at 0 and 60 degrees (in either
  stored order) with at least one column, holding the constant values \<open>a\<close> (at 0) and
  \<open>b\<close> (at 60), the weights of the two rows are 1 and 1/2, their ratio is 2, and the
  weighted mean of every time step is \<open>(2 * a + b) / 3\<close>.
\<close>

theorem two_row_weighted_mean:
  "weights sub = map (\<lambda>lat. cos (lat * pi / 180)) (sub_lat sub) \<and>
   (sub_lon sub \<noteq> [] \<and>
    (\<forall>t<length (sub_time sub). \<forall>j<length (sub_lon sub).
       sub_cells sub t r0 j = Some a \<and> sub_cells sub t r60 j = Some b) \<and>
    (sub_lat sub = [0, 60] \<and> r0 = 0 \<and> r60 = 1 \<or> sub_lat sub = [60, 0] \<and> r0 = 1 \<and> r60 = 0)
    \<longrightarrow>
      weights sub ! r0 = 1 \<and> weights sub ! r60 = 1 / 2 \<and>
      weights sub ! r0 / weights sub ! r60 = 2 \<and>
      area_mean sub = replicate (length (sub_time sub)) (Some ((2 * a + b) / 3)))"
proof -
  have w0: "weights sub = map (\<lambda>lat. cos (lat * pi / 180)) (sub_lat sub)"
    by (simp add: weights_def deg2rad_def)
  have r: "weights sub ! r0 = 1 \<and> weights sub ! r60 = 1 / 2 \<and>
      weights sub ! r0 / weights sub ! r60 = 2 \<and>
      area_mean sub = replicate (length (sub_time sub)) (Some ((2 * a + b) / 3))"
    if lon: "sub_lon sub \<noteq> []"
      and rows: "\<forall>t<length (sub_time sub). \<forall>j<length (sub_lon sub).
                   sub_cells sub t r0 j = Some a \<and> sub_cells sub t r60 j = Some b"
      and lat: "sub_lat sub = [0, 60] \<and> r0 = 0 \<and> r60 = 1 \<or>
                sub_lat sub = [60, 0] \<and> r0 = 1 \<and> r60 = 0"
  proof -
    from lat show ?thesis
    proof
      assume h: "sub_lat sub = [0, 60] \<and> r0 = 0 \<and> r60 = 1"
      then have w: "weights sub = [1, 1 / 2]"
        by (simp add: weights_def deg2rad_60 deg2rad_0)
      have "area_mean sub =
            replicate (length (sub_time sub)) (Some ((1 * a + 1 / 2 * b) / (1 + 1 / 2)))"
        using w _ lon by (rule two_row_mean) (use rows h in simp_all)
      moreover have "(1 * a + 1 / 2 * b) / (1 + 1 / 2) = (2 * a + b) / 3"
        by (simp add: field_simps)
      ultimately show ?thesis using w h by simp
    next
      assume h: "sub_lat sub = [60, 0] \<and> r0 = 1 \<and> r60 = 0"
      then have w: "weights sub = [1 / 2, 1]"
        by (simp add: weights_def deg2rad_60 deg2rad_0)
      have "area_mean sub =
            replicate (length (sub_time sub)) (Some ((1 / 2 * b + 1 * a) / (1 / 2 + 1)))"
        using w _ lon by (rule two_row_mean) (use rows h in simp_all)
      moreover have "(1 / 2 * b + 1 * a) / (1 / 2 + 1) = (2 * a + b) / 3"
        by (simp add: field_simps)
      ultimately show ?thesis using w h by simp
    qed
  qed
  show ?thesis using w0 r by blast
qed

text \<open>
  The theorem on grids of two time steps and two columns with the values 3 (at 0
  degrees) and 6 (at 60 degrees), in both stored orders.
\<close>

theorem two_row_weighted_mean_witness:
  "area_mean \<lparr> sub_time = [0, 3600000000000], sub_lat = [0, 60], sub_lon = [10, 11],
               sub_cells = (\<lambda>t i j. if i = 0 then Some 3 else Some 6) \<rparr> = [Some 4, Some 4] \<and>
   area_mean \<lparr> sub_time = [0, 3600000000000], sub_lat = [60, 0], sub_lon = [10, 11],
               sub_cells = (\<lambda>t i j. if i = 1 then Some 3 else Some 6) \<rparr> = [Some 4, Some 4]"
  using
    two_row_weighted_mean
      [of "\<lparr> sub_time = [0, 3600000000000], sub_lat = [0, 60], sub_lon = [10, 11],
              sub_cells = (\<lambda>t i j. if i = 0 then Some 3 else Some 6) \<rparr>" 0 3 1 6]
    two_row_weighted_mean
      [of "\<lparr> sub_time = [0, 3600000000000], sub_lat = [60, 0], sub_lon = [10, 11],
              sub_cells = (\<lambda>t i j. if i = 1 then Some 3 else Some 6) \<rparr>" 1 3 0 6]
  by simp

text \<open>
  Claim C10, as the code has it. When every latitude of the subset lies strictly between
  -90 and 90 degrees, every weight is positive, and for a non-empty subset so is their
  sum. At a time step where at least one cell holds a value, the total weight of the
  reduction (the sum over the cells that are present) is positive and the weighted mean
  is a value; at a time step where every cell is missing, the total weight is zero and
  the mean is missing.
\<close>

theorem weights_positive_mean_defined:
  assumes lat: "\<forall>lat\<in>set (sub_lat sub). - 90 < lat \<and> lat < 90"
  shows "(\<forall>x\<in>set (weights sub). 0 < x) \<and>
         (sub_lat sub \<noteq> [] \<longrightarrow> 0 < sum_list (weights sub)) \<and>
         (\<forall>t<length (sub_time sub).
            ((\<exists>i<length (sub_lat sub). \<exists>j<length (sub_lon sub). sub_cells sub t i j \<noteq> None) \<longrightarrow>
               0 < total_weight (weights sub) (length (sub_lon sub)) (sub_cells sub t) \<and>
               area_mean sub ! t =
                 Some (weighted_sum (weights sub) (length (sub_lon sub)) (sub_cells sub t) /
                       total_weight (weights sub) (length (sub_lon sub)) (sub_cells sub t))) \<and>
            ((\<forall>i<length (sub_lat sub). \<forall>j<length (sub_lon sub). sub_cells sub t i j = None) \<longrightarrow>
               total_weight (weights sub) (length (sub_lon sub)) (sub_cells sub t) = 0 \<and>
               area_mean sub ! t = None))"
proof -
  let ?n = "length (sub_lon sub)"
  have w: "\<forall>x\<in>set (weights sub). 0 < x"
    using lat by (auto simp: weights_def weights_pos)
  have s: "sub_lat sub \<noteq> [] \<longrightarrow> 0 < sum_list (weights sub)"
  proof
    assume "sub_lat sub \<noteq> []"
    then have "weights sub \<noteq> []" by (simp add: weights_def)
    then show "0 < sum_list (weights sub)" using w by (rule sum_list_positive)
  qed
  have p: "0 < total_weight (weights sub) ?n (sub_cells sub t) \<and>
           area_mean sub ! t =
             Some (weighted_sum (weights sub) ?n (sub_cells sub t) /
                   total_weight (weights sub) ?n (sub_cells sub t))"
    if t: "t < length (sub_time sub)"
      and c: "\<exists>i<length (sub_lat sub). \<exists>j<?n. sub_cells sub t i j \<noteq> None" for t
  proof -
    obtain i j where i: "i < length (sub_lat sub)" and j: "j < ?n"
      and n: "sub_cells sub t i j \<noteq> None"
      using c by blast
    have i': "i < length (weights sub)" using i by (simp add: weights_def)
    have tw: "0 < total_weight (weights sub) ?n (sub_cells sub t)"
      using w i' j n by (rule total_weight_pos)
    then show ?thesis
      using t by (simp add: area_mean_nth weighted_mean_def sum_of_weights_def)
  qed
  have m: "total_weight (weights sub) ?n (sub_cells sub t) = 0 \<and> area_mean sub ! t = None"
    if t: "t < length (sub_time sub)"
      and c: "\<forall>i<length (sub_lat sub). \<forall>j<?n. sub_cells sub t i j = None" for t
  proof -
    have "total_weight (weights sub) ?n (sub_cells sub t) = 0"
      by (rule total_weight_all_missing) (use c in \<open>simp add: weights_def\<close>)
    then show ?thesis
      using t by (simp add: area_mean_nth weighted_mean_def sum_of_weights_def)
  qed
  show ?thesis using w s p m by blast
qed

text \<open>
  The theorem on a grid of two rows and one column whose cells hold a value at the first
  time step and are missing at the second.
\<close>

theorem weights_positive_mean_defined_witness:
  "weights \<lparr> sub_time = [0, 3600000000000], sub_lat = [0, 60], sub_lon = [10],
             sub_cells = (\<lambda>t i j. if t = 0 then Some 1 else None) \<rparr> = [1, 1 / 2] \<and>
   area_mean \<lparr> sub_time = [0, 3600000000000], sub_lat = [0, 60], sub_lon = [10],
               sub_cells = (\<lambda>t i j. if t = 0 then Some 1 else None) \<rparr> = [Some 1, None]"
  using weights_positive_mean_defined
    [of "\<lparr> sub_time = [0, 3600000000000], sub_lat = [0, 60], sub_lon = [10],
            sub_cells = (\<lambda>t i j. if t = 0 then Some 1 else None) \<rparr>"]
  by (simp add: weights_def deg2rad_0 deg2rad_60 area_mean_def weighted_mean_def
      sum_of_weights_def total_weight_def weighted_sum_def upt_rec)

text \<open>
  Claim C10 as stated fails on a non-empty subset at latitude 0 whose cell holds a value
  at the first time step and is missing at the second: the weight is 1, and at the second
  time step the total weight of the reduction is 0 and the mean is missing.
\<close>

theorem all_missing_time_step_has_no_mean:
  "weights \<lparr> sub_time = [0, 3600000000000], sub_lat = [0], sub_lon = [10],
             sub_cells = (\<lambda>t i j. if t = 0 then Some 1 else None) \<rparr> = [1] \<and>
   total_weight [1] 1 (\<lambda>i j. None) = 0 \<and>
   area_mean \<lparr> sub_time = [0, 3600000000000], sub_lat = [0], sub_lon = [10],
               sub_cells = (\<lambda>t i j. if t = 0 then Some 1 else None) \<rparr> = [Some 1, None]"
  by (simp add: weights_def deg2rad_def total_weight_def weighted_sum_def area_mean_def
      weighted_mean_def sum_of_weights_def upt_rec)

section \<open>The maximum and its timestamp\<close>

lemma nanmax_None: "nanmax xs = None \<longleftrightarrow> (\<forall>x\<in>set xs. x = None)"
  by (induction xs rule: nanmax.induct) (auto split: option.splits)

lemma nanmax_mem: "nanmax xs = Some m \<Longrightarrow> Some m \<in> set xs"
  by (induction xs arbitrary: m rule: nanmax.induct) (auto split: option.splits simp: max_def)

lemma nanmax_upper: "nanmax xs = Some m \<Longrightarrow> Some v \<in> set xs \<Longrightarrow> v \<le> m"
  by (induction xs arbitrary: m rule: nanmax.induct)
    (auto split: option.splits simp: nanmax_None)

lemma nanargmax_spec:
  "nanargmax xs i best =
     (case nanmax xs of
        None \<Rightarrow> best
      | Some m \<Rightarrow>
          (case best of
             None \<Rightarrow> Some (i + first_index xs (Some m), m)
           | Some (k, b) \<Rightarrow> if b < m then Some (i + first_index xs (Some m), m) else Some (k, b)))"
proof (induction xs i best rule: nanargmax.induct)
  case (1 i best)
  then show ?case by simp
next
  case (2 xs i best)
  then show ?case by (auto simp: first_index_def split: option.splits)
next
  case (3 v xs i best)
  show ?case
  proof (cases "nanmax xs")
    case None
    then show ?thesis
      using 3 by (auto simp: first_index_def split: option.splits)
  next
    case (Some m)
    have ub: "\<And>u. Some u \<in> set xs \<Longrightarrow> u \<le> m" using Some by (rule nanmax_upper)
    have mem: "Some m \<in> set xs" using Some by (rule nanmax_mem)
    show ?thesis
    proof (cases "m \<le> v")
      case True
      then have "max v m = v" by simp
      then show ?thesis
        using 3 Some True by (auto simp: first_index_def split: option.splits)
    next
      case False
      then have mx: "max v m = m" and ne: "v \<noteq> m" by auto
      show ?thesis
        using 3 Some False mx ne by (auto simp: first_index_def split: option.splits)
    qed
  qed
qed

lemma first_index_less: "y \<in> set xs \<Longrightarrow> first_index xs y < length xs"
  unfolding first_index_def by (induction xs) auto

lemma first_index_nth: "y \<in> set xs \<Longrightarrow> xs ! first_index xs y = y"
  unfolding first_index_def by (induction xs) auto

lemma first_index_least: "i < length xs \<Longrightarrow> xs ! i = y \<Longrightarrow> first_index xs y \<le> i"
  unfolding first_index_def
proof (induction xs arbitrary: i)
  case Nil
  then show ?case by simp
next
  case (Cons x xs)
  then show ?case by (cases i) auto
qed

lemma idxmax_first:
  assumes v: "Some v \<in> set (map snd (entries s))"
  shows "\<exists>k m. nanmax (map snd (entries s)) = Some m \<and>
           idxmax flag s = Inr (Some (fst (entries s ! k))) \<and>
           k < length (entries s) \<and> snd (entries s ! k) = Some m \<and>
           (\<forall>u. Some u \<in> set (map snd (entries s)) \<longrightarrow> u \<le> m) \<and>
           (\<forall>i<length (entries s). snd (entries s ! i) = Some m \<longrightarrow> k \<le> i) \<and>
           (sorted (map fst (entries s)) \<longrightarrow>
              (\<forall>i<length (entries s). snd (entries s ! i) = Some m \<longrightarrow>
                 fst (entries s ! k) \<le> fst (entries s ! i)))"
proof -
  let ?vs = "map snd (entries s)"
  have "nanmax ?vs \<noteq> None" using v nanmax_None [of ?vs] by force
  then obtain m where m: "nanmax ?vs = Some m" by auto
  let ?k = "first_index ?vs (Some m)"
  have mem: "Some m \<in> set ?vs" using m by (rule nanmax_mem)
  have k: "?k < length (entries s)" using first_index_less [OF mem] by simp
  have ne: "entries s \<noteq> []" using k by auto
  have at: "snd (entries s ! ?k) = Some m"
    using first_index_nth [OF mem] k by simp
  have ub: "\<forall>u. Some u \<in> set ?vs \<longrightarrow> u \<le> m"
  proof (intro allI impI)
    fix u assume "Some u \<in> set ?vs"
    with m show "u \<le> m" by (rule nanmax_upper)
  qed
  have least: "\<forall>i<length (entries s). snd (entries s ! i) = Some m \<longrightarrow> ?k \<le> i"
  proof (intro allI impI)
    fix i assume "i < length (entries s)" "snd (entries s ! i) = Some m"
    then have "i < length ?vs" "?vs ! i = Some m" by simp_all
    then show "?k \<le> i" by (rule first_index_least)
  qed
  have idx: "idxmax flag s = Inr (Some (fst (entries s ! ?k)))"
    using ne m by (simp add: idxmax_def nanargmax_spec)
  have early: "sorted (map fst (entries s)) \<longrightarrow>
      (\<forall>i<length (entries s). snd (entries s ! i) = Some m \<longrightarrow>
         fst (entries s ! ?k) \<le> fst (entries s ! i))"
  proof (intro allI impI)
    fix i assume s: "sorted (map fst (entries s))"
      and i: "i < length (entries s)" and e: "snd (entries s ! i) = Some m"
    have "?k \<le> i" using least i e by simp
    then have "map fst (entries s) ! ?k \<le> map fst (entries s) ! i"
      using s i by (intro sorted_nth_mono) simp_all
    then show "fst (entries s ! ?k) \<le> fst (entries s ! i)"
      using i k by simp
  qed
  show ?thesis
    using m idx k at ub least early by blast
qed

section \<open>The missing hours\<close>

lemma le_div_pos_iff:
  fixes h :: int
  assumes "0 < h"
  shows "(k \<le> a div h) = (k * h \<le> a)"
proof
  assume "k \<le> a div h"
  then have "k * h \<le> (a div h) * h"
    using assms by (intro mult_right_mono) auto
  also have "\<dots> \<le> (a div h) * h + a mod h"
  proof -
    have "0 \<le> a mod h" using assms by (rule pos_mod_sign)
    then show ?thesis by linarith
  qed
  also have "\<dots> = a" by simp
  finally show "k * h \<le> a" .
next
  assume "k * h \<le> a"
  then have "(k * h) div h \<le> a div h"
    using assms by (rule zdiv_mono1)
  then show "k \<le> a div h" using assms by simp
qed

lemma date_range_set:
  "set (date_range s e) = {t. \<exists>k::nat. t = s + int k * hour_ns \<and> t \<le> e}"
proof -
  let ?n = "nat ((e - s) div hour_ns + 1)"
  have h: "0 < hour_ns" by (simp add: hour_ns_def second_ns_def)
  have iff: "(k < ?n) = (s + int k * hour_ns \<le> e)" for k :: nat
  proof -
    have "(k < ?n) = (int k \<le> (e - s) div hour_ns)"
      by (simp add: zless_nat_eq_int_zless)
    also have "\<dots> = (int k * hour_ns \<le> e - s)"
      using h by (rule le_div_pos_iff)
    also have "\<dots> = (s + int k * hour_ns \<le> e)"
      by linarith
    finally show ?thesis .
  qed
  have "set (date_range s e) = (\<lambda>k. s + int k * hour_ns) ` {k. k < ?n}"
    by (simp add: date_range_def atLeast0LessThan lessThan_def)
  also have "\<dots> = {t. \<exists>k::nat. t = s + int k * hour_ns \<and> t \<le> e}"
    unfolding iff by blast
  finally show ?thesis .
qed

lemma missing_hours_card:
  "missing_hours cfg actual =
     card (set (date_range (time_start cfg) (time_end cfg)) - set actual) \<and>
   set (date_range (time_start cfg) (time_end cfg)) =
     {t. \<exists>k::nat. t = time_start cfg + int k * hour_ns \<and> t \<le> time_end cfg} \<and>
   (missing_hours cfg actual = 0 \<longleftrightarrow>
      set (date_range (time_start cfg) (time_end cfg)) \<subseteq> set actual)"
proof -
  let ?E = "date_range (time_start cfg) (time_end cfg)"
  have "missing_hours cfg actual = length (remdups (filter (\<lambda>t. t \<notin> set actual) ?E))"
    by (simp add: missing_hours_def difference_def)
  also have "\<dots> = card (set ?E - set actual)"
    by (simp add: length_remdups_card_conv set_diff_eq)
  finally have c: "missing_hours cfg actual = card (set ?E - set actual)" .
  have z: "(missing_hours cfg actual = 0) = (set ?E \<subseteq> set actual)"
    by (simp add: c)
  show ?thesis using c z date_range_set by simp
qed

text \<open>
  The expected index of the script's own constants has 96432 hours (eleven years, three
  of them leap years).
\<close>

lemma expected_hours_2010_2020:
  "length (date_range (time_start module_constants) (time_end module_constants)) = 96432"
  by (simp add: date_range_def module_constants_def hour_ns_def second_ns_def)

section \<open>The pipeline\<close>

lemma open_events:
  "fst (open_aorc_dataset w uri) =
     (case open_zarr w uri True of
        Inr ds \<Rightarrow> [LogInfo ''Opening AORC dataset from %s'', OpenZarr uri True]
      | Inl exc \<Rightarrow>
          [LogInfo ''Opening AORC dataset from %s'', OpenZarr uri True,
           LogWarning ''Consolidated open failed (%s); retrying without consolidation'' exc,
           OpenZarr uri False])"
  by (simp add: open_aorc_dataset_def split: sum.splits)

lemma open_result:
  "snd (open_aorc_dataset w uri) =
     and_then
       (case open_zarr w uri True of
          Inr ds \<Rightarrow> Inr ds
        | Inl exc \<Rightarrow>
            (case open_zarr w uri False of Inr ds \<Rightarrow> Inr ds | Inl exc2 \<Rightarrow> Inl (OpenError exc2)))
       (\<lambda>ds. if ''apcp'' \<notin> dom ds then Inl MissingVariable else Inr ds)"
  by (simp add: open_aorc_dataset_def split: sum.splits)

lemma open_no_writes: "filter is_write (fst (open_aorc_dataset w uri)) = []"
  by (simp add: open_events split: sum.splits)

lemma main_after_open:
  assumes "snd (open_aorc_dataset w (AORC_ZARR_URI w)) = Inr ds" "ds ''apcp'' = Some apcp"
  shows "main cfg w =
     (case resolve_names apcp of
        Inl e \<Rightarrow> (Mkdir OUTPUT_DIR # fst (open_aorc_dataset w (AORC_ZARR_URI w)), Inl e)
      | Inr (lat_name, lon_name) \<Rightarrow>
          (case sel cfg apcp lat_name lon_name of
             Inl e \<Rightarrow>
               (Mkdir OUTPUT_DIR # fst (open_aorc_dataset w (AORC_ZARR_URI w)) @
                  [LogInfo ''Subsetting data in time and space''], Inl e)
           | Inr sub \<Rightarrow>
               (Mkdir OUTPUT_DIR # fst (open_aorc_dataset w (AORC_ZARR_URI w)) @
                  [LogInfo ''Subsetting data in time and space''] @ fst (qa_and_sink cfg w sub),
                snd (qa_and_sink cfg w sub))))"
  using assms
  by (cases "open_aorc_dataset w (AORC_ZARR_URI w)")
    (simp add: main_def split_def Let_def split: sum.splits prod.splits)

lemma main_open_failed:
  assumes "snd (open_aorc_dataset w (AORC_ZARR_URI w)) = Inl e"
  shows "main cfg w = (Mkdir OUTPUT_DIR # fst (open_aorc_dataset w (AORC_ZARR_URI w)), Inl e)"
  using assms
  by (cases "open_aorc_dataset w (AORC_ZARR_URI w)") (simp add: main_def)

lemma open_Inr_has_apcp:
  "snd (open_aorc_dataset w uri) = Inr ds \<Longrightarrow> \<exists>apcp. ds ''apcp'' = Some apcp"
  by (auto simp: open_result and_then_def split: sum.splits if_splits)

lemma resolve_names_error: "resolve_names apcp = Inl e \<Longrightarrow> e = CoordinateNotFound"
  by (simp add: resolve_names_def Let_def split: if_splits)

lemma get_slice_error: "get_slice lo hi xs = Inl e \<Longrightarrow> e = EmptyCoordinate"
  by (simp add: get_slice_def Let_def split: if_splits)

lemma coordinate_of_error: "coordinate_of a n = Inl e \<Longrightarrow> e = CoordinateNotFound"
  by (simp add: coordinate_of_def split: option.splits)

lemma get_slice_bound_error: "get_slice_bound cast xs v s = Inl e \<Longrightarrow> e = SliceKeyError"
  by (auto simp: get_slice_bound_def searchsorted_monotonic_def get_loc_def Let_def
      split: sum.splits if_splits)

lemma slice_locs_error: "slice_locs cast xs a b = Inl e \<Longrightarrow> e = SliceKeyError"
  by (auto simp: slice_locs_def and_then_def split: sum.splits dest: get_slice_bound_error)

lemma sel_time_error: "sel_time a b ts = Inl e \<Longrightarrow> e = SliceKeyError"
  by (auto simp: sel_time_def Let_def split: if_splits dest: slice_locs_error)

lemma sel_error:
  "sel cfg apcp lat_name lon_name = Inl e \<Longrightarrow> e \<in> {CoordinateNotFound, EmptyCoordinate, SliceKeyError}"
  by (auto simp: sel_def and_then_def split: sum.splits
      dest: coordinate_of_error get_slice_error sel_time_error slice_locs_error)

lemma qa_and_sink_error:
  "snd (qa_and_sink cfg w sub) = Inl e \<Longrightarrow> e \<in> {NoTimeSteps, ArgmaxError}"
  by (auto simp: qa_and_sink_def idxmax_def Let_def split: if_splits sum.splits option.splits prod.splits)

lemma qa_and_sink_failed_no_writes:
  "snd (qa_and_sink cfg w sub) \<noteq> Inr () \<Longrightarrow> filter is_write (fst (qa_and_sink cfg w sub)) = []"
  by (auto simp: qa_and_sink_def Let_def split: if_splits sum.splits)

lemma csv_files_append: "csv_files (xs @ ys) = csv_files xs @ csv_files ys"
  by (induction xs rule: csv_files.induct) auto

lemma open_no_csv: "csv_files (fst (open_aorc_dataset w uri)) = []"
  by (simp add: open_events split: sum.splits)

lemma open_calls_open:
  "open_calls (fst (open_aorc_dataset w uri)) =
     (case open_zarr w uri True of Inr ds \<Rightarrow> [True] | Inl exc \<Rightarrow> [True, False])"
  by (simp add: open_events split: sum.splits)

lemma open_error_iff:
  "snd (open_aorc_dataset w uri) = Inl (OpenError e) \<longleftrightarrow>
   (\<exists>exc. open_zarr w uri True = Inl exc) \<and> open_zarr w uri False = Inl e"
  by (auto simp: open_result and_then_def split: sum.splits if_splits)

lemma main_open_error_iff:
  "snd (main cfg w) = Inl (OpenError e) \<longleftrightarrow>
   snd (open_aorc_dataset w (AORC_ZARR_URI w)) = Inl (OpenError e)"
proof (cases "snd (open_aorc_dataset w (AORC_ZARR_URI w))")
  case (Inl e')
  then show ?thesis by (simp add: main_open_failed)
next
  case (Inr ds)
  then obtain apcp where a: "ds ''apcp'' = Some apcp"
    using open_Inr_has_apcp by blast
  have "snd (main cfg w) \<noteq> Inl (OpenError e)"
  proof
    assume e: "snd (main cfg w) = Inl (OpenError e)"
    show False
    proof (cases "resolve_names apcp")
      case (Inl e1)
      then show False
        using e resolve_names_error [OF Inl] by (simp add: main_after_open [OF Inr a])
    next
      case names: (Inr p)
      obtain lat_name lon_name where p: "p = (lat_name, lon_name)" by (cases p)
      show False
      proof (cases "sel cfg apcp lat_name lon_name")
        case (Inl e2)
        then show False
          using e names p sel_error [OF Inl] by (auto simp: main_after_open [OF Inr a])
      next
        case sub: (Inr sub)
        have "snd (qa_and_sink cfg w sub) = Inl (OpenError e)"
          using e names p sub by (simp add: main_after_open [OF Inr a])
        then show False using qa_and_sink_error by fastforce
      qed
    qed
  qed
  then show ?thesis using Inr by simp
qed

lemma sel_sub_time:
  assumes "sel cfg apcp lat_name lon_name = Inr sub"
  shows "\<exists>tr. sub_time sub = isel tr (time_index apcp)"
  using assms by (fastforce simp: sel_def and_then_def split: sum.splits)

lemma qa_and_sink_csv:
  assumes "snd (qa_and_sink cfg w sub) = Inr ()"
  shows "csv_files (fst (qa_and_sink cfg w sub)) =
         [\<lparr> csv_header = [''time'', ''apcp_area_mean''],
            csv_rows = zip (sub_time sub) (area_mean sub) \<rparr>]"
  using assms
  by (auto simp: qa_and_sink_def Let_def to_csv_def to_frame_def rename_def to_series_def
      split: if_splits sum.splits)

text \<open>
  A run of the pipeline on the synthetic dataset, with a box that contains the grid.
\<close>

lemmas run_defs = main_def open_aorc_dataset_def AORC_ZARR_URI_def example_world_def
  example_apcp_def example_config_def resolve_names_def sel_def coordinate_of_def
  get_slice_def sel_time_def slice_locs_def get_slice_bound_def get_loc_def
  searchsorted_monotonic_def searchsorted_def isel_def qa_and_sink_def missing_hours_def
  date_range_def difference_def to_series_def area_mean_def weights_def weighted_mean_def
  sum_of_weights_def total_weight_def weighted_sum_def idxmax_def to_netcdf_def to_csv_def
  to_frame_def rename_def hour_ns_def second_ns_def deg2rad_60 deg2rad_0

lemma ex_sel:
  "sel (example_config 0 7200000000000 (-10) 70) example_apcp ''latitude'' ''longitude'' =
   Inr \<lparr> sub_time = [0, 3600000000000, 7200000000000], sub_lat = [60, 0], sub_lon = [10, 11],
         sub_cells = (\<lambda>t i j. Some (if t = 1 then 9 else 3)) \<rparr>"
  by (simp add: run_defs)

lemma ex_area: "area_mean \<lparr> sub_time = [0, 3600000000000, 7200000000000], sub_lat = [60, 0], sub_lon = [10, 11],
         sub_cells = (\<lambda>t i j. Some (if t = 1 then 9 else 3)) \<rparr> = [Some 3, Some 9, Some 3]"
  by (simp add: run_defs upt_rec)

lemma ex_main_ok:
  "main (example_config 0 7200000000000 (-10) 70)
        (example_world [''apcp'' \<mapsto> example_apcp] True False) =
   ([Mkdir OUTPUT_DIR, LogInfo ''Opening AORC dataset from %s'', OpenZarr ''s3://noaa-nws-aorc-v1-1-1km'' True,
     LogInfo ''Subsetting data in time and space'',
     LogInfo ''Computing QA metrics'',
     LogMissingHours 0,
     LogMax (Some 9) (Some 3600000000000),
     LogInfo ''Writing NetCDF subset to %s'',
     WriteNetcdf SUBSET_NETCDF \<lparr> nc_variable = ''apcp'', nc_time = [0, 3600000000000, 7200000000000],
                   nc_lat = [60, 0], nc_lon = [10, 11],
                   nc_data = [[[Some 3, Some 3], [Some 3, Some 3]],
                              [[Some 9, Some 9], [Some 9, Some 9]],
                              [[Some 3, Some 3], [Some 3, Some 3]]] \<rparr>,
     LogInfo ''Writing area-mean CSV to %s'',
     WriteCsv AREA_MEAN_CSV \<lparr> csv_header = [''time'', ''apcp_area_mean''],
                csv_rows = [(0, Some 3), (3600000000000, Some 9), (7200000000000, Some 3)] \<rparr>,
     LogInfo ''Done''], Inr ())"
  by (simp add: run_defs upt_rec)

text \<open>
  Claim C6. The connector first opens with consolidated metadata. When that succeeds
  there is no warning and no second call. When it fails, with any exception, the connector
  logs a warning and opens once more without consolidation. The connector, and the
  pipeline, end with an open failure exactly when the consolidated open failed and the
  fallback failed too, and the failure reported is the fallback's.
\<close>

theorem consolidated_then_single_fallback:
  "(\<forall>ds. open_zarr w uri True = Inr ds \<longrightarrow>
      fst (open_aorc_dataset w uri) = [LogInfo ''Opening AORC dataset from %s'', OpenZarr uri True]) \<and>
   (\<forall>exc. open_zarr w uri True = Inl exc \<longrightarrow>
      fst (open_aorc_dataset w uri) =
        [LogInfo ''Opening AORC dataset from %s'', OpenZarr uri True,
         LogWarning ''Consolidated open failed (%s); retrying without consolidation'' exc,
         OpenZarr uri False]) \<and>
   (\<forall>e. snd (open_aorc_dataset w uri) = Inl (OpenError e) \<longleftrightarrow>
      (\<exists>exc. open_zarr w uri True = Inl exc) \<and> open_zarr w uri False = Inl e) \<and>
   (\<forall>e. snd (main cfg w) = Inl (OpenError e) \<longleftrightarrow>
      (\<exists>exc. open_zarr w (AORC_ZARR_URI w) True = Inl exc) \<and>
      open_zarr w (AORC_ZARR_URI w) False = Inl e)"
  by (simp add: open_events open_error_iff main_open_error_iff)

text \<open>
  The theorem on a store that answers the consolidated open, on one that refuses it and
  answers the fallback, and on one that refuses both.
\<close>

theorem consolidated_then_single_fallback_witness:
  "fst (open_aorc_dataset (example_world [''apcp'' \<mapsto> example_apcp] True False) ''s3://bucket'') =
     [LogInfo ''Opening AORC dataset from %s'', OpenZarr ''s3://bucket'' True] \<and>
   open_aorc_dataset (example_world [''apcp'' \<mapsto> example_apcp] False False) ''s3://bucket'' =
     ([LogInfo ''Opening AORC dataset from %s'', OpenZarr ''s3://bucket'' True,
       LogWarning ''Consolidated open failed (%s); retrying without consolidation''
         ''no consolidated metadata'',
       OpenZarr ''s3://bucket'' False], Inr [''apcp'' \<mapsto> example_apcp]) \<and>
   snd (main (example_config 0 7200000000000 (-10) 70)
          \<lparr> env_uri = Some ''s3://bucket'',
            open_zarr = (\<lambda>uri consolidated. Inl (if consolidated then ''first'' else ''second'')),
            all_na_raises = False \<rparr>) = Inl (OpenError ''second'')"
  using
    consolidated_then_single_fallback
      [of "example_world [''apcp'' \<mapsto> example_apcp] True False" "''s3://bucket''"]
    consolidated_then_single_fallback
      [of "example_world [''apcp'' \<mapsto> example_apcp] False False" "''s3://bucket''"]
    consolidated_then_single_fallback
      [of "\<lparr> env_uri = Some ''s3://bucket'',
            open_zarr = (\<lambda>uri consolidated. Inl (if consolidated then ''first'' else ''second'')),
            all_na_raises = False \<rparr>" "''s3://bucket''" "example_config 0 7200000000000 (-10) 70"]
  by (simp add: example_world_def open_aorc_dataset_def AORC_ZARR_URI_def)

text \<open>
  Claim C7. After an open that succeeded (at once, or through the fallback) with the
  dataset \<open>ds\<close>: the connector returns \<open>ds\<close> itself when it has the variable
  \<^verbatim>\<open>apcp\<close>, and fails with the missing-variable error otherwise. The open calls made
  depend on the consolidated open only, so a missing variable causes no retry; and the
  pipeline ends there with that error.
\<close>

theorem missing_variable_is_fatal:
  assumes "open_zarr w uri True = Inr ds \<or>
           ((\<exists>exc. open_zarr w uri True = Inl exc) \<and> open_zarr w uri False = Inr ds)"
  shows "snd (open_aorc_dataset w uri) =
           (if ''apcp'' \<in> dom ds then Inr ds else Inl MissingVariable) \<and>
         open_calls (fst (open_aorc_dataset w uri)) =
           (if open_zarr w uri True = Inr ds then [True] else [True, False]) \<and>
         (uri = AORC_ZARR_URI w \<and> ''apcp'' \<notin> dom ds \<longrightarrow>
            main cfg w = (Mkdir OUTPUT_DIR # fst (open_aorc_dataset w uri), Inl MissingVariable))"
proof -
  have r: "snd (open_aorc_dataset w uri) =
           (if ''apcp'' \<in> dom ds then Inr ds else Inl MissingVariable)"
    using assms by (cases "ds ''apcp''") (auto simp: open_result domIff)
  have c: "open_calls (fst (open_aorc_dataset w uri)) =
           (if open_zarr w uri True = Inr ds then [True] else [True, False])"
    using assms by (auto simp: open_calls_open)
  have m: "uri = AORC_ZARR_URI w \<and> ''apcp'' \<notin> dom ds \<longrightarrow>
            main cfg w = (Mkdir OUTPUT_DIR # fst (open_aorc_dataset w uri), Inl MissingVariable)"
  proof (intro impI)
    assume h: "uri = AORC_ZARR_URI w \<and> ''apcp'' \<notin> dom ds"
    then have "snd (open_aorc_dataset w (AORC_ZARR_URI w)) = Inl MissingVariable"
      using r by simp
    then show "main cfg w = (Mkdir OUTPUT_DIR # fst (open_aorc_dataset w uri), Inl MissingVariable)"
      using h by (simp add: main_open_failed)
  qed
  show ?thesis using r c m by simp
qed

text \<open>
  The theorem on a store whose dataset has no variable, and on one that answers the
  fallback with the variable present.
\<close>

theorem missing_variable_is_fatal_witness:
  "main (example_config 0 7200000000000 (-10) 70) (example_world Map.empty True False) =
     ([Mkdir OUTPUT_DIR, LogInfo ''Opening AORC dataset from %s'', OpenZarr ''s3://noaa-nws-aorc-v1-1-1km'' True],
      Inl MissingVariable) \<and>
   open_aorc_dataset (example_world [''apcp'' \<mapsto> example_apcp] False False) ''s3://bucket'' =
     ([LogInfo ''Opening AORC dataset from %s'', OpenZarr ''s3://bucket'' True,
       LogWarning ''Consolidated open failed (%s); retrying without consolidation''
         ''no consolidated metadata'',
       OpenZarr ''s3://bucket'' False], Inr [''apcp'' \<mapsto> example_apcp])"
  using
    missing_variable_is_fatal
      [of "example_world Map.empty True False" "''s3://noaa-nws-aorc-v1-1-1km''" Map.empty
          "example_config 0 7200000000000 (-10) 70"]
    missing_variable_is_fatal
      [of "example_world [''apcp'' \<mapsto> example_apcp] False False" "''s3://bucket''"
          "[''apcp'' \<mapsto> example_apcp]"]
  by (simp add: example_world_def open_aorc_dataset_def AORC_ZARR_URI_def)

text \<open>
  Claim C8. The latitude coordinate is found under the name latitude or lat, the
  longitude coordinate under longitude or lon, the long spelling first when both are
  there; when neither spelling of one of them is there the pipeline ends with the
  coordinate-not-found error, right after the open.
\<close>

theorem coordinate_name_resolution:
  assumes "snd (open_aorc_dataset w (AORC_ZARR_URI w)) = Inr ds" "ds ''apcp'' = Some apcp"
  shows "resolve_names apcp =
           (if (''latitude'' \<in> dom (coords apcp) \<or> ''lat'' \<in> dom (coords apcp)) \<and>
               (''longitude'' \<in> dom (coords apcp) \<or> ''lon'' \<in> dom (coords apcp))
            then Inr (if ''latitude'' \<in> dom (coords apcp) then ''latitude'' else ''lat'',
                      if ''longitude'' \<in> dom (coords apcp) then ''longitude'' else ''lon'')
            else Inl CoordinateNotFound) \<and>
         (\<not> ((''latitude'' \<in> dom (coords apcp) \<or> ''lat'' \<in> dom (coords apcp)) \<and>
              (''longitude'' \<in> dom (coords apcp) \<or> ''lon'' \<in> dom (coords apcp))) \<longrightarrow>
            main cfg w =
              (Mkdir OUTPUT_DIR # fst (open_aorc_dataset w (AORC_ZARR_URI w)), Inl CoordinateNotFound))"
proof -
  have r: "resolve_names apcp =
           (if (''latitude'' \<in> dom (coords apcp) \<or> ''lat'' \<in> dom (coords apcp)) \<and>
               (''longitude'' \<in> dom (coords apcp) \<or> ''lon'' \<in> dom (coords apcp))
            then Inr (if ''latitude'' \<in> dom (coords apcp) then ''latitude'' else ''lat'',
                      if ''longitude'' \<in> dom (coords apcp) then ''longitude'' else ''lon'')
            else Inl CoordinateNotFound)"
    by (simp add: resolve_names_def)
  show ?thesis
    using r by (auto simp: main_after_open [OF assms])
qed

text \<open>
  The theorem on an array with the names lat, longitude and lon, and on a dataset whose
  array has no longitude coordinate under either name.
\<close>

theorem coordinate_name_resolution_witness:
  "resolve_names (example_apcp\<lparr>coords := [''lat'' \<mapsto> [60, 0], ''longitude'' \<mapsto> [10, 11], ''lon'' \<mapsto> [10, 11]]\<rparr>) =
     Inr (''lat'', ''longitude'') \<and>
   main (example_config 0 7200000000000 (-10) 70)
     (example_world [''apcp'' \<mapsto> example_apcp\<lparr>coords := [''latitude'' \<mapsto> [60, 0]]\<rparr>] True False) =
     ([Mkdir OUTPUT_DIR, LogInfo ''Opening AORC dataset from %s'', OpenZarr ''s3://noaa-nws-aorc-v1-1-1km'' True],
      Inl CoordinateNotFound)"
proof -
  let ?a = "example_apcp\<lparr>coords := [''lat'' \<mapsto> [60, 0], ''longitude'' \<mapsto> [10, 11], ''lon'' \<mapsto> [10, 11]]\<rparr>"
  let ?b = "example_apcp\<lparr>coords := [''latitude'' \<mapsto> [60, 0]]\<rparr>"
  have o: "snd (open_aorc_dataset (example_world [''apcp'' \<mapsto> x] True False)
             (AORC_ZARR_URI (example_world [''apcp'' \<mapsto> x] True False))) = Inr [''apcp'' \<mapsto> x]"
    for x
    by (simp add: example_world_def open_aorc_dataset_def)
  have l: "[''apcp'' \<mapsto> x] ''apcp'' = Some x" for x :: data_array
    by simp
  show ?thesis
    using coordinate_name_resolution [OF o l, of ?a]
      coordinate_name_resolution [OF o l, of ?b "example_config 0 7200000000000 (-10) 70"]
    by (simp add: example_world_def open_aorc_dataset_def AORC_ZARR_URI_def)
qed

text \<open>
  Claim C3, as the code has it. When the selected subset has no time step, the pipeline
  ends with the no-time-steps error and writes neither file. The check looks at the time
  axis only.
\<close>

theorem no_time_steps_is_fatal:
  assumes "snd (open_aorc_dataset w (AORC_ZARR_URI w)) = Inr ds" "ds ''apcp'' = Some apcp"
    and "resolve_names apcp = Inr (lat_name, lon_name)"
    and "sel cfg apcp lat_name lon_name = Inr sub"
    and "sub_time sub = []"
  shows "snd (main cfg w) = Inl NoTimeSteps \<and> filter is_write (fst (main cfg w)) = []"
  using assms(3-5)
  by (simp add: main_after_open [OF assms(1,2)] qa_and_sink_def open_no_writes)

text \<open>
  The theorem on the synthetic dataset with a requested window after its last hour.
\<close>

theorem no_time_steps_is_fatal_witness:
  "main (example_config 36000000000000 43200000000000 (-10) 70)
        (example_world [''apcp'' \<mapsto> example_apcp] True False) =
   ([Mkdir OUTPUT_DIR, LogInfo ''Opening AORC dataset from %s'', OpenZarr ''s3://noaa-nws-aorc-v1-1-1km'' True,
     LogInfo ''Subsetting data in time and space''], Inl NoTimeSteps)"
proof -
  let ?w = "example_world [''apcp'' \<mapsto> example_apcp] True False"
  let ?cfg = "example_config 36000000000000 43200000000000 (-10) 70"
  have o: "snd (open_aorc_dataset ?w (AORC_ZARR_URI ?w)) = Inr [''apcp'' \<mapsto> example_apcp]"
    by (simp add: example_world_def open_aorc_dataset_def)
  have l: "[''apcp'' \<mapsto> example_apcp] ''apcp'' = Some example_apcp"
    by simp
  have n: "resolve_names example_apcp = Inr (''latitude'', ''longitude'')"
    by (simp add: resolve_names_def example_apcp_def)
  obtain sub where s: "sel ?cfg example_apcp ''latitude'' ''longitude'' = Inr sub"
    and t: "sub_time sub = []"
    by (simp add: run_defs)
  have "snd (main ?cfg ?w) = Inl NoTimeSteps \<and> filter is_write (fst (main ?cfg ?w)) = []"
    using o l n s t by (rule no_time_steps_is_fatal)
  moreover have "fst (main ?cfg ?w) =
    [Mkdir OUTPUT_DIR, LogInfo ''Opening AORC dataset from %s'', OpenZarr ''s3://noaa-nws-aorc-v1-1-1km'' True,
     LogInfo ''Subsetting data in time and space'']"
    by (simp add: run_defs)
  ultimately show ?thesis by (simp add: prod_eq_iff)
qed

text \<open>
  Claim C3 as stated fails. The box of latitudes 70 to 80 lies entirely outside the
  grid, whose latitudes are 60 and 0. The selection has no latitude row and three time
  steps, so the check of the time steps passes: every area mean is missing, and the run
  writes both files and ends normally. Where \<^verbatim>\<open>idxmax\<close> raises on a series without a
  value, the run ends with that error instead, which is not the no-time-steps one.
\<close>

theorem box_outside_coverage_still_writes:
  "list_all (\<lambda>lat. lat < 70) [60, 0 :: real] \<and>
   main (example_config 0 7200000000000 70 80)
        (example_world [''apcp'' \<mapsto> example_apcp] True False) =
   ([Mkdir OUTPUT_DIR, LogInfo ''Opening AORC dataset from %s'', OpenZarr ''s3://noaa-nws-aorc-v1-1-1km'' True,
     LogInfo ''Subsetting data in time and space'',
     LogInfo ''Computing QA metrics'',
     LogMissingHours 0,
     LogMax None None,
     LogInfo ''Writing NetCDF subset to %s'',
     WriteNetcdf SUBSET_NETCDF \<lparr> nc_variable = ''apcp'', nc_time = [0, 3600000000000, 7200000000000],
                   nc_lat = [], nc_lon = [10, 11], nc_data = [[], [], []] \<rparr>,
     LogInfo ''Writing area-mean CSV to %s'',
     WriteCsv AREA_MEAN_CSV \<lparr> csv_header = [''time'', ''apcp_area_mean''],
                csv_rows = [(0, None), (3600000000000, None), (7200000000000, None)] \<rparr>,
     LogInfo ''Done''], Inr ()) \<and>
   snd (main (example_config 0 7200000000000 70 80)
          (example_world [''apcp'' \<mapsto> example_apcp] True True)) = Inl ArgmaxError"
  by (simp add: run_defs upt_rec)

text \<open>
  Claim C9. A run that succeeds writes one tabular file. Its header row is the two
  column names time and apcp_area_mean; it has one row per time step of the selected
  subset, pairing the timestamp with the area mean, in the order of the series, which is
  the order of the dataset's time index: ascending when that index is ascending.
\<close>

theorem csv_layout:
  assumes "snd (main cfg w) = Inr ()"
  shows "\<exists>ds apcp lat_name lon_name sub.
           snd (open_aorc_dataset w (AORC_ZARR_URI w)) = Inr ds \<and> ds ''apcp'' = Some apcp \<and>
           resolve_names apcp = Inr (lat_name, lon_name) \<and>
           sel cfg apcp lat_name lon_name = Inr sub \<and>
           csv_files (fst (main cfg w)) =
             [\<lparr> csv_header = [''time'', ''apcp_area_mean''],
                csv_rows = zip (sub_time sub) (area_mean sub) \<rparr>] \<and>
           map fst (zip (sub_time sub) (area_mean sub)) = sub_time sub \<and>
           length (zip (sub_time sub) (area_mean sub)) = length (sub_time sub) \<and>
           (sorted (time_index apcp) \<longrightarrow> sorted (sub_time sub))"
proof (cases "snd (open_aorc_dataset w (AORC_ZARR_URI w))")
  case (Inl e)
  then show ?thesis using assms by (simp add: main_open_failed)
next
  case (Inr ds)
  then obtain apcp where a: "ds ''apcp'' = Some apcp"
    using open_Inr_has_apcp by blast
  note m = main_after_open [OF Inr a, of cfg]
  show ?thesis
  proof (cases "resolve_names apcp")
    case (Inl e1)
    then show ?thesis using assms by (simp add: m)
  next
    case names: (Inr p)
    obtain lat_name lon_name where p: "p = (lat_name, lon_name)" by (cases p)
    show ?thesis
    proof (cases "sel cfg apcp lat_name lon_name")
      case (Inl e2)
      then show ?thesis using assms names p by (simp add: m)
    next
      case sub: (Inr sub)
      have q: "snd (qa_and_sink cfg w sub) = Inr ()"
        using assms names p sub by (simp add: m)
      have csv: "csv_files (fst (main cfg w)) =
             [\<lparr> csv_header = [''time'', ''apcp_area_mean''],
                csv_rows = zip (sub_time sub) (area_mean sub) \<rparr>]"
        using names p sub by (simp add: m csv_files_append open_no_csv qa_and_sink_csv [OF q])
      have len: "length (area_mean sub) = length (sub_time sub)"
        by (simp add: area_mean_def)
      obtain tr where tr: "sub_time sub = isel tr (time_index apcp)"
        using sel_sub_time [OF sub] by blast
      have srt: "sorted (time_index apcp) \<longrightarrow> sorted (sub_time sub)"
        by (simp add: tr isel_def sorted_wrt_take sorted_wrt_drop)
      have "snd (open_aorc_dataset w (AORC_ZARR_URI w)) = Inr ds \<and> ds ''apcp'' = Some apcp \<and>
           resolve_names apcp = Inr (lat_name, lon_name) \<and>
           sel cfg apcp lat_name lon_name = Inr sub \<and>
           csv_files (fst (main cfg w)) =
             [\<lparr> csv_header = [''time'', ''apcp_area_mean''],
                csv_rows = zip (sub_time sub) (area_mean sub) \<rparr>] \<and>
           map fst (zip (sub_time sub) (area_mean sub)) = sub_time sub \<and>
           length (zip (sub_time sub) (area_mean sub)) = length (sub_time sub) \<and>
           (sorted (time_index apcp) \<longrightarrow> sorted (sub_time sub))"
        using Inr a names p sub csv len srt by simp
      then show ?thesis by blast
    qed
  qed
qed

text \<open>
  The theorem on the run of the synthetic dataset.
\<close>

theorem csv_layout_witness:
  "csv_files (fst (main (example_config 0 7200000000000 (-10) 70)
                     (example_world [''apcp'' \<mapsto> example_apcp] True False))) =
     [\<lparr> csv_header = [''time'', ''apcp_area_mean''],
        csv_rows = [(0, Some 3), (3600000000000, Some 9), (7200000000000, Some 3)] \<rparr>]"
proof -
  let ?w = "example_world [''apcp'' \<mapsto> example_apcp] True False"
  let ?cfg = "example_config 0 7200000000000 (-10) 70"
  have ok: "snd (main ?cfg ?w) = Inr ()"
    by (simp add: ex_main_ok)
  obtain ds apcp lat_name lon_name sub where
    o: "snd (open_aorc_dataset ?w (AORC_ZARR_URI ?w)) = Inr ds" and a: "ds ''apcp'' = Some apcp"
    and n: "resolve_names apcp = Inr (lat_name, lon_name)"
    and s: "sel ?cfg apcp lat_name lon_name = Inr sub"
    and c: "csv_files (fst (main ?cfg ?w)) =
             [\<lparr> csv_header = [''time'', ''apcp_area_mean''],
                csv_rows = zip (sub_time sub) (area_mean sub) \<rparr>]"
    using csv_layout [OF ok] by blast
  have "ds = [''apcp'' \<mapsto> example_apcp]"
    using o by (simp add: example_world_def open_aorc_dataset_def)
  then have ap: "apcp = example_apcp" using a by simp
  then have "lat_name = ''latitude''" "lon_name = ''longitude''"
    using n by (simp_all add: resolve_names_def example_apcp_def)
  then have "sub = \<lparr> sub_time = [0, 3600000000000, 7200000000000], sub_lat = [60, 0],
         sub_lon = [10, 11], sub_cells = (\<lambda>t i j. Some (if t = 1 then 9 else 3)) \<rparr>"
    using s ap by (simp add: ex_sel)
  then show ?thesis
    using c ex_area by simp
qed

section \<open>The metrics of a run\<close>

lemma missing_hours_logged_append:
  "missing_hours_logged (xs @ ys) = missing_hours_logged xs @ missing_hours_logged ys"
  by (induction xs rule: missing_hours_logged.induct) auto

lemma max_logged_append: "max_logged (xs @ ys) = max_logged xs @ max_logged ys"
  by (induction xs rule: max_logged.induct) auto

lemma open_logs_no_metric:
  "missing_hours_logged (fst (open_aorc_dataset w uri)) = []"
  "max_logged (fst (open_aorc_dataset w uri)) = []"
  by (simp_all add: open_events split: sum.splits)

lemma main_success:
  assumes "snd (main cfg w) = Inr ()"
  shows "\<exists>ds apcp lat_name lon_name sub.
           snd (open_aorc_dataset w (AORC_ZARR_URI w)) = Inr ds \<and> ds ''apcp'' = Some apcp \<and>
           resolve_names apcp = Inr (lat_name, lon_name) \<and>
           sel cfg apcp lat_name lon_name = Inr sub \<and>
           snd (qa_and_sink cfg w sub) = Inr () \<and>
           fst (main cfg w) =
             Mkdir OUTPUT_DIR # fst (open_aorc_dataset w (AORC_ZARR_URI w)) @
             [LogInfo ''Subsetting data in time and space''] @ fst (qa_and_sink cfg w sub)"
proof (cases "snd (open_aorc_dataset w (AORC_ZARR_URI w))")
  case (Inl e)
  then show ?thesis using assms by (simp add: main_open_failed)
next
  case (Inr ds)
  then obtain apcp where a: "ds ''apcp'' = Some apcp"
    using open_Inr_has_apcp by blast
  note m = main_after_open [OF Inr a, of cfg]
  show ?thesis
  proof (cases "resolve_names apcp")
    case (Inl e1)
    then show ?thesis using assms by (simp add: m)
  next
    case names: (Inr p)
    obtain lat_name lon_name where p: "p = (lat_name, lon_name)" by (cases p)
    show ?thesis
    proof (cases "sel cfg apcp lat_name lon_name")
      case (Inl e2)
      then show ?thesis using assms names p by (simp add: m)
    next
      case sub: (Inr sub)
      have "snd (open_aorc_dataset w (AORC_ZARR_URI w)) = Inr ds \<and> ds ''apcp'' = Some apcp \<and>
           resolve_names apcp = Inr (lat_name, lon_name) \<and>
           sel cfg apcp lat_name lon_name = Inr sub \<and>
           snd (qa_and_sink cfg w sub) = Inr () \<and>
           fst (main cfg w) =
             Mkdir OUTPUT_DIR # fst (open_aorc_dataset w (AORC_ZARR_URI w)) @
             [LogInfo ''Subsetting data in time and space''] @ fst (qa_and_sink cfg w sub)"
        using assms Inr a names p sub by (simp add: m)
      then show ?thesis by blast
    qed
  qed
qed

lemma qa_and_sink_success:
  assumes "snd (qa_and_sink cfg w sub) = Inr ()"
  shows "\<exists>mt. idxmax (all_na_raises w) (to_series sub) = Inr mt \<and>
           missing_hours_logged (fst (qa_and_sink cfg w sub)) =
             [missing_hours cfg (sub_time sub)] \<and>
           max_logged (fst (qa_and_sink cfg w sub)) =
             [(nanmax (map snd (entries (to_series sub))), mt)]"
  using assms
  by (auto simp: qa_and_sink_def Let_def split: if_splits sum.splits)

lemma to_series_index: "map fst (entries (to_series sub)) = sub_time sub"
  by (simp add: to_series_def area_mean_def)

text \<open>
  A run on the synthetic dataset with a window of four hours, of which the dataset has
  three; and the run on the dataset whose time index is not in time order, with a window
  that holds all of it.
\<close>

lemma gap_main:
  "main (example_config 0 10800000000000 (-10) 70)
        (example_world [''apcp'' \<mapsto> example_apcp] True False) =
   ([Mkdir OUTPUT_DIR, LogInfo ''Opening AORC dataset from %s'',
     OpenZarr ''s3://noaa-nws-aorc-v1-1-1km'' True,
     LogInfo ''Subsetting data in time and space'',
     LogInfo ''Computing QA metrics'',
     LogMissingHours 1,
     LogMax (Some 9) (Some 3600000000000),
     LogInfo ''Writing NetCDF subset to %s'',
     WriteNetcdf SUBSET_NETCDF
       \<lparr> nc_variable = ''apcp'', nc_time = [0, 3600000000000, 7200000000000],
         nc_lat = [60, 0], nc_lon = [10, 11],
         nc_data = [[[Some 3, Some 3], [Some 3, Some 3]],
                    [[Some 9, Some 9], [Some 9, Some 9]],
                    [[Some 3, Some 3], [Some 3, Some 3]]] \<rparr>,
     LogInfo ''Writing area-mean CSV to %s'',
     WriteCsv AREA_MEAN_CSV
       \<lparr> csv_header = [''time'', ''apcp_area_mean''],
         csv_rows = [(0, Some 3), (3600000000000, Some 9), (7200000000000, Some 3)] \<rparr>,
     LogInfo ''Done''], Inr ())"
  by (simp add: run_defs upt_rec)

lemma unsorted_main:
  "main (example_config 0 0 (-10) 70) (example_world [''apcp'' \<mapsto> unsorted_apcp] True False) =
   ([Mkdir OUTPUT_DIR, LogInfo ''Opening AORC dataset from %s'',
     OpenZarr ''s3://noaa-nws-aorc-v1-1-1km'' True,
     LogInfo ''Subsetting data in time and space'',
     LogInfo ''Computing QA metrics'',
     LogMissingHours 0,
     LogMax (Some 5) (Some 20),
     LogInfo ''Writing NetCDF subset to %s'',
     WriteNetcdf SUBSET_NETCDF
       \<lparr> nc_variable = ''apcp'', nc_time = [999999999, 20, 10, 0],
         nc_lat = [0], nc_lon = [10],
         nc_data = [[[Some 1]], [[Some 5]], [[Some 5]], [[Some 2]]] \<rparr>,
     LogInfo ''Writing area-mean CSV to %s'',
     WriteCsv AREA_MEAN_CSV
       \<lparr> csv_header = [''time'', ''apcp_area_mean''],
         csv_rows = [(999999999, Some 1), (20, Some 5), (10, Some 5), (0, Some 2)] \<rparr>,
     LogInfo ''Done''], Inr ())"
  by (simp add: run_defs unsorted_apcp_def upt_rec)

text \<open>
  Claim C4. A run that succeeds logs one missing-hours metric: the number of expected
  timestamps that are not among the timestamps of the materialised series. The expected
  timestamps are the start and every whole hour after it up to the end, inclusive. The
  metric is zero exactly when the series has every expected timestamp.
\<close>

theorem missing_hours_of_run:
  assumes "snd (main cfg w) = Inr ()"
  shows "\<exists>ds apcp lat_name lon_name sub.
           snd (open_aorc_dataset w (AORC_ZARR_URI w)) = Inr ds \<and> ds ''apcp'' = Some apcp \<and>
           resolve_names apcp = Inr (lat_name, lon_name) \<and>
           sel cfg apcp lat_name lon_name = Inr sub \<and>
           missing_hours_logged (fst (main cfg w)) =
             [card (set (date_range (time_start cfg) (time_end cfg)) -
                    set (map fst (entries (to_series sub))))] \<and>
           set (date_range (time_start cfg) (time_end cfg)) =
             {t. \<exists>k::nat. t = time_start cfg + int k * hour_ns \<and> t \<le> time_end cfg} \<and>
           (missing_hours_logged (fst (main cfg w)) = [0] \<longleftrightarrow>
              set (date_range (time_start cfg) (time_end cfg)) \<subseteq>
              set (map fst (entries (to_series sub))))"
proof -
  obtain ds apcp lat_name lon_name sub where
    o: "snd (open_aorc_dataset w (AORC_ZARR_URI w)) = Inr ds" and a: "ds ''apcp'' = Some apcp"
    and n: "resolve_names apcp = Inr (lat_name, lon_name)"
    and s: "sel cfg apcp lat_name lon_name = Inr sub"
    and q: "snd (qa_and_sink cfg w sub) = Inr ()"
    and tr: "fst (main cfg w) =
             Mkdir OUTPUT_DIR # fst (open_aorc_dataset w (AORC_ZARR_URI w)) @
             [LogInfo ''Subsetting data in time and space''] @ fst (qa_and_sink cfg w sub)"
    using main_success [OF assms] by blast
  let ?E = "date_range (time_start cfg) (time_end cfg)"
  let ?A = "map fst (entries (to_series sub))"
  have l: "missing_hours_logged (fst (main cfg w)) = [missing_hours cfg (sub_time sub)]"
    using qa_and_sink_success [OF q]
    by (auto simp: tr missing_hours_logged_append open_logs_no_metric)
  have c: "missing_hours cfg (sub_time sub) = card (set ?E - set ?A)"
    using missing_hours_card [of cfg "sub_time sub", THEN conjunct1]
    by (simp only: to_series_index)
  have z: "(missing_hours cfg (sub_time sub) = 0) = (set ?E \<subseteq> set ?A)"
    using missing_hours_card [of cfg "sub_time sub", THEN conjunct2, THEN conjunct2]
    by (simp only: to_series_index)
  have e: "set ?E = {t. \<exists>k::nat. t = time_start cfg + int k * hour_ns \<and> t \<le> time_end cfg}"
    by (rule date_range_set)
  have l': "missing_hours_logged (fst (main cfg w)) = [card (set ?E - set ?A)]"
    using l c by simp
  have z': "(missing_hours_logged (fst (main cfg w)) = [0]) = (set ?E \<subseteq> set ?A)"
    using l z by simp
  show ?thesis
    by (rule exI [of _ ds], rule exI [of _ apcp], rule exI [of _ lat_name],
        rule exI [of _ lon_name], rule exI [of _ sub])
      (intro conjI o a n s l' e z')
qed

text \<open>
  The theorem on the run whose window has four hours and whose series has three of
  them: one hour is missing.
\<close>

theorem missing_hours_of_run_witness:
  "missing_hours_logged
     (fst (main (example_config 0 10800000000000 (-10) 70)
             (example_world [''apcp'' \<mapsto> example_apcp] True False))) = [1]"
proof -
  have ok: "snd (main (example_config 0 10800000000000 (-10) 70)
                   (example_world [''apcp'' \<mapsto> example_apcp] True False)) = Inr ()"
    by (simp add: gap_main)
  show ?thesis
    using missing_hours_of_run [OF ok] by (simp add: gap_main)
qed

text \<open>
  Claim C5, as the code has it. A run that succeeds logs one maximum metric: the value
  is \<^verbatim>\<open>max\<close> of the materialised series, missing values skipped. When the series has
  a value, that is its largest value, and the timestamp logged is the one at the first
  position of the series that holds it: the position of a unique maximum, the first
  position among tied maxima. It is the earliest tied timestamp when the series is in
  time order, as it is when the dataset's time index is.
\<close>

theorem maximum_of_run:
  assumes "snd (main cfg w) = Inr ()"
  shows "\<exists>ds apcp lat_name lon_name sub s mv mt.
           snd (open_aorc_dataset w (AORC_ZARR_URI w)) = Inr ds \<and> ds ''apcp'' = Some apcp \<and>
           resolve_names apcp = Inr (lat_name, lon_name) \<and>
           sel cfg apcp lat_name lon_name = Inr sub \<and>
           s = entries (to_series sub) \<and>
           max_logged (fst (main cfg w)) = [(mv, mt)] \<and>
           mv = nanmax (map snd s) \<and>
           ((\<exists>v. Some v \<in> set (map snd s)) \<longrightarrow>
              (\<exists>k m. mv = Some m \<and> mt = Some (fst (s ! k)) \<and>
                 k < length s \<and> snd (s ! k) = Some m \<and>
                 (\<forall>u. Some u \<in> set (map snd s) \<longrightarrow> u \<le> m) \<and>
                 (\<forall>i<length s. snd (s ! i) = Some m \<longrightarrow> k \<le> i) \<and>
                 (sorted (map fst s) \<longrightarrow>
                    (\<forall>i<length s. snd (s ! i) = Some m \<longrightarrow> fst (s ! k) \<le> fst (s ! i))))) \<and>
           (sorted (time_index apcp) \<longrightarrow> sorted (map fst s))"
proof -
  obtain ds apcp lat_name lon_name sub where
    o: "snd (open_aorc_dataset w (AORC_ZARR_URI w)) = Inr ds" and a: "ds ''apcp'' = Some apcp"
    and n: "resolve_names apcp = Inr (lat_name, lon_name)"
    and s: "sel cfg apcp lat_name lon_name = Inr sub"
    and q: "snd (qa_and_sink cfg w sub) = Inr ()"
    and tr: "fst (main cfg w) =
             Mkdir OUTPUT_DIR # fst (open_aorc_dataset w (AORC_ZARR_URI w)) @
             [LogInfo ''Subsetting data in time and space''] @ fst (qa_and_sink cfg w sub)"
    using main_success [OF assms] by blast
  let ?s = "entries (to_series sub)"
  obtain mt where i: "idxmax (all_na_raises w) (to_series sub) = Inr mt"
    and l: "max_logged (fst (qa_and_sink cfg w sub)) = [(nanmax (map snd ?s), mt)]"
    using qa_and_sink_success [OF q] by blast
  have lg: "max_logged (fst (main cfg w)) = [(nanmax (map snd ?s), mt)]"
    using l by (simp add: tr max_logged_append open_logs_no_metric)
  have v: "(\<exists>v. Some v \<in> set (map snd ?s)) \<longrightarrow>
              (\<exists>k m. nanmax (map snd ?s) = Some m \<and> mt = Some (fst (?s ! k)) \<and>
                 k < length ?s \<and> snd (?s ! k) = Some m \<and>
                 (\<forall>u. Some u \<in> set (map snd ?s) \<longrightarrow> u \<le> m) \<and>
                 (\<forall>i<length ?s. snd (?s ! i) = Some m \<longrightarrow> k \<le> i) \<and>
                 (sorted (map fst ?s) \<longrightarrow>
                    (\<forall>i<length ?s. snd (?s ! i) = Some m \<longrightarrow> fst (?s ! k) \<le> fst (?s ! i))))"
  proof
    assume "\<exists>v. Some v \<in> set (map snd ?s)"
    then obtain v where "Some v \<in> set (map snd ?s)" by blast
    then obtain k m where km: "nanmax (map snd ?s) = Some m"
      "idxmax (all_na_raises w) (to_series sub) = Inr (Some (fst (?s ! k)))"
      "k < length ?s" "snd (?s ! k) = Some m"
      "\<forall>u. Some u \<in> set (map snd ?s) \<longrightarrow> u \<le> m"
      "\<forall>i<length ?s. snd (?s ! i) = Some m \<longrightarrow> k \<le> i"
      "sorted (map fst ?s) \<longrightarrow>
         (\<forall>i<length ?s. snd (?s ! i) = Some m \<longrightarrow> fst (?s ! k) \<le> fst (?s ! i))"
      using idxmax_first [of v "to_series sub" "all_na_raises w"] by blast
    have "mt = Some (fst (?s ! k))" using i km(2) by simp
    with km show "\<exists>k m. nanmax (map snd ?s) = Some m \<and> mt = Some (fst (?s ! k)) \<and>
                 k < length ?s \<and> snd (?s ! k) = Some m \<and>
                 (\<forall>u. Some u \<in> set (map snd ?s) \<longrightarrow> u \<le> m) \<and>
                 (\<forall>i<length ?s. snd (?s ! i) = Some m \<longrightarrow> k \<le> i) \<and>
                 (sorted (map fst ?s) \<longrightarrow>
                    (\<forall>i<length ?s. snd (?s ! i) = Some m \<longrightarrow> fst (?s ! k) \<le> fst (?s ! i)))"
      by blast
  qed
  obtain r where r: "sub_time sub = isel r (time_index apcp)"
    using sel_sub_time [OF s] by blast
  have srt: "sorted (time_index apcp) \<longrightarrow> sorted (map fst ?s)"
    by (simp add: to_series_index r isel_def sorted_wrt_take sorted_wrt_drop)
  have "snd (open_aorc_dataset w (AORC_ZARR_URI w)) = Inr ds \<and> ds ''apcp'' = Some apcp \<and>
        resolve_names apcp = Inr (lat_name, lon_name) \<and>
        sel cfg apcp lat_name lon_name = Inr sub \<and>
        ?s = entries (to_series sub) \<and>
        max_logged (fst (main cfg w)) = [(nanmax (map snd ?s), mt)] \<and>
        nanmax (map snd ?s) = nanmax (map snd ?s) \<and>
        ((\<exists>v. Some v \<in> set (map snd ?s)) \<longrightarrow>
              (\<exists>k m. nanmax (map snd ?s) = Some m \<and> mt = Some (fst (?s ! k)) \<and>
                 k < length ?s \<and> snd (?s ! k) = Some m \<and>
                 (\<forall>u. Some u \<in> set (map snd ?s) \<longrightarrow> u \<le> m) \<and>
                 (\<forall>i<length ?s. snd (?s ! i) = Some m \<longrightarrow> k \<le> i) \<and>
                 (sorted (map fst ?s) \<longrightarrow>
                    (\<forall>i<length ?s. snd (?s ! i) = Some m \<longrightarrow> fst (?s ! k) \<le> fst (?s ! i))))) \<and>
        (sorted (time_index apcp) \<longrightarrow> sorted (map fst ?s))"
    using o a n s lg v srt by simp
  then show ?thesis by blast
qed

text \<open>
  The theorem on the run of the synthetic dataset: the maximum 9 at the second hour.
\<close>

theorem maximum_of_run_witness:
  "max_logged
     (fst (main (example_config 0 7200000000000 (-10) 70)
             (example_world [''apcp'' \<mapsto> example_apcp] True False))) =
   [(Some 9, Some 3600000000000)]"
proof -
  have ok: "snd (main (example_config 0 7200000000000 (-10) 70)
                   (example_world [''apcp'' \<mapsto> example_apcp] True False)) = Inr ()"
    by (simp add: ex_main_ok)
  show ?thesis
    using maximum_of_run [OF ok] by (simp add: ex_main_ok)
qed

text \<open>
  Claim C5 as stated fails on tied maxima when the series is not in time order. On the
  dataset with the timestamps 999999999, 20, 10, 0 and the values 1, 5, 5, 2 the window
  from 0 selects the whole index in stored order; the maximum 5 is tied at 20 and at 10
  nanoseconds, and the metric reports 20, the first in the series, not the earliest.
\<close>

theorem tied_maximum_not_earliest:
  "max_logged
     (fst (main (example_config 0 0 (-10) 70)
             (example_world [''apcp'' \<mapsto> unsorted_apcp] True False))) = [(Some 5, Some 20)] \<and>
   map csv_rows
     (csv_files
       (fst (main (example_config 0 0 (-10) 70)
               (example_world [''apcp'' \<mapsto> unsorted_apcp] True False)))) =
     [[(999999999, Some 1), (20, Some 5), (10, Some 5), (0, Some 2)]]"
  by (simp add: unsorted_main)

end
